theory Spec2Isabelle
  imports Main "HOL-Library.AList"
begin

section \<open>Python strings\<close>

text \<open>
  A Python \<open>str\<close> is modelled as a \<open>string\<close>, one \<open>char\<close> per code point, so the
  embedding covers texts whose code points lie below 256 (Latin-1). The character
  classes below are those of Python 3 for that range: \<open>str.isspace\<close> (also \<open>\s\<close> of
  the \<open>re\<close> module), \<open>\d\<close>, \<open>\w\<close>, \<open>str.isdigit\<close> and \<open>str.lower\<close>.
\<close>

definition is_space :: "char \<Rightarrow> bool" where
  "is_space c = (let n = (of_char c :: nat) in
     (9 \<le> n \<and> n \<le> 13) \<or> (28 \<le> n \<and> n \<le> 32) \<or> n = 133 \<or> n = 160)"

definition is_digit :: "char \<Rightarrow> bool" where
  "is_digit c = (let n = (of_char c :: nat) in 48 \<le> n \<and> n \<le> 57)"

definition is_word :: "char \<Rightarrow> bool" where
  "is_word c = (let n = (of_char c :: nat) in
     (48 \<le> n \<and> n \<le> 57) \<or> (65 \<le> n \<and> n \<le> 90) \<or> n = 95 \<or> (97 \<le> n \<and> n \<le> 122) \<or>
     n = 170 \<or> (178 \<le> n \<and> n \<le> 179) \<or> n = 181 \<or> (185 \<le> n \<and> n \<le> 186) \<or>
     (188 \<le> n \<and> n \<le> 190) \<or> (192 \<le> n \<and> n \<le> 214) \<or> (216 \<le> n \<and> n \<le> 246) \<or>
     (248 \<le> n \<and> n \<le> 255))"

definition is_upper :: "char \<Rightarrow> bool" where
  "is_upper c = (let n = (of_char c :: nat) in
     (65 \<le> n \<and> n \<le> 90) \<or> (192 \<le> n \<and> n \<le> 214) \<or> (216 \<le> n \<and> n \<le> 222))"

text \<open>
  The upper-case letters of Latin-1 have bit 5 clear and their lower-case forms are
  32 higher, so lowering one sets bit 5.
\<close>

fun add32 :: "char \<Rightarrow> char" where
  "add32 (Char b0 b1 b2 b3 b4 b5 b6 b7) = Char b0 b1 b2 b3 b4 True b6 b7"

definition lower_char :: "char \<Rightarrow> char" where
  "lower_char c = (if is_upper c then add32 c else c)"

definition lower :: "string \<Rightarrow> string" where
  "lower s = map lower_char s"

text \<open>\<open>w in s\<close> on strings: \<open>w\<close> occurs in \<open>s\<close> as a contiguous substring.\<close>

fun starts_with :: "string \<Rightarrow> string \<Rightarrow> bool" where
  "starts_with s [] = True"
| "starts_with [] (c # cs) = False"
| "starts_with (x # xs) (c # cs) = (x = c \<and> starts_with xs cs)"

fun str_in :: "string \<Rightarrow> string \<Rightarrow> bool" where
  "str_in w [] = (w = [])"
| "str_in w (c # cs) = (starts_with (c # cs) w \<or> str_in w cs)"

section \<open>Banned-word detection (TGBot2.py)\<close>

text \<open>
  \<open>text_contains_banned_word(text, banned_words)\<close>. The text may be absent (\<open>None\<close>);
  \<open>not text\<close> holds for \<open>None\<close> and for the empty string. The set of banned words is
  given as the list of its elements in the order in which the \<open>for\<close> loop visits them.
\<close>

fun first_banned :: "string \<Rightarrow> string list \<Rightarrow> string option" where
  "first_banned lowered [] = None"
| "first_banned lowered (w # ws) =
     (if w \<noteq> [] \<and> str_in w lowered then Some w else first_banned lowered ws)"

definition text_contains_banned_word :: "string option \<Rightarrow> string list \<Rightarrow> string option" where
  "text_contains_banned_word text banned_words =
     (case text of
        None \<Rightarrow> None
      | Some t \<Rightarrow>
          if t = [] then None
          else let lowered = lower t in first_banned lowered banned_words)"

section \<open>Regular expressions (the part of Python's \<open>re\<close> the sources use)\<close>

text \<open>
  A position in the subject is the character before it (if any) and the rest of the
  text; \<open>\b\<close> needs both. \<open>rmatch ic r pos\<close> lists the positions at which a match of
  \<open>r\<close> starting at \<open>pos\<close> can end, in the order in which a backtracking matcher finds
  them: the left alternative first, a greedy repetition as long as it can. The flag
  \<open>ic\<close> is \<open>re.IGNORECASE\<close>; it only affects literal characters, since the classes of
  the sources hold letters only through \<open>\w\<close>.
\<close>

type_synonym pos = "char option \<times> string"

datatype regex =
    Eps
  | Chr char
  | Cls "char \<Rightarrow> bool"
  | Seq regex regex
  | Alt regex regex
  | Rep nat "nat option" regex
  | WordB

fun greedy :: "(pos \<Rightarrow> pos list) \<Rightarrow> nat \<Rightarrow> nat \<Rightarrow> pos \<Rightarrow> pos list" where
  "greedy f lo 0 st = (if lo = 0 then [st] else [])"
| "greedy f lo (Suc hi) st =
     concat (map (greedy f (lo - 1) hi) (f st)) @ (if lo = 0 then [st] else [])"

definition word_at :: "char option \<Rightarrow> bool" where
  "word_at p = (case p of None \<Rightarrow> False | Some c \<Rightarrow> is_word c)"

definition next_char :: "string \<Rightarrow> char option" where
  "next_char s = (case s of [] \<Rightarrow> None | c # _ \<Rightarrow> Some c)"

text \<open>
  \<open>Rep lo hi r\<close> is \<open>r{lo,hi}\<close>; without an upper bound (\<open>r+\<close>, \<open>r*\<close>) the number of
  rounds is bounded by the length of the rest, every round of the sources' patterns
  taking a character.
\<close>

primrec rmatch :: "bool \<Rightarrow> regex \<Rightarrow> pos \<Rightarrow> pos list" where
  "rmatch ic Eps st = [st]"
| "rmatch ic (Chr c) st =
     (case snd st of
        [] \<Rightarrow> []
      | x # xs \<Rightarrow>
          if (if ic then lower_char x = lower_char c else x = c) then [(Some x, xs)] else [])"
| "rmatch ic (Cls P) st =
     (case snd st of [] \<Rightarrow> [] | x # xs \<Rightarrow> if P x then [(Some x, xs)] else [])"
| "rmatch ic (Seq a b) st = concat (map (rmatch ic b) (rmatch ic a st))"
| "rmatch ic (Alt a b) st = rmatch ic a st @ rmatch ic b st"
| "rmatch ic (Rep lo hi r) st =
     greedy (rmatch ic r) lo (case hi of None \<Rightarrow> length (snd st) | Some h \<Rightarrow> h) st"
| "rmatch ic WordB st =
     (if word_at (fst st) \<noteq> word_at (next_char (snd st)) then [st] else [])"

text \<open>\<open>pattern.search(text)\<close> as a truth value: some position starts a match.\<close>

fun search :: "bool \<Rightarrow> regex \<Rightarrow> char option \<Rightarrow> string \<Rightarrow> bool" where
  "search ic r p [] = (rmatch ic r (p, []) \<noteq> [])"
| "search ic r p (c # cs) = (rmatch ic r (p, c # cs) \<noteq> [] \<or> search ic r (Some c) cs)"

text \<open>
  \<open>re.sub(pattern, repl, text)\<close> for a literal replacement: the leftmost match, the
  first one the matcher finds there, is replaced and the scan goes on behind it. The
  branch for a match of length 0 (replace, copy one character, go on) is never taken by
  the patterns of the sources, which all take at least three characters.
\<close>

function sub :: "bool \<Rightarrow> regex \<Rightarrow> string \<Rightarrow> char option \<Rightarrow> string \<Rightarrow> string" where
  "sub ic r repl p s =
     (case rmatch ic r (p, s) of
        [] \<Rightarrow> (case s of [] \<Rightarrow> [] | c # cs \<Rightarrow> c # sub ic r repl (Some c) cs)
      | (p', s') # _ \<Rightarrow>
          if length s' < length s then repl @ sub ic r repl p' s'
          else repl @ (case s of [] \<Rightarrow> [] | c # cs \<Rightarrow> c # sub ic r repl (Some c) cs))"
  by pat_completeness auto
termination
  by (relation "measure (\<lambda>(ic, r, repl, p, s). length s)") auto

declare sub.simps [simp del]

fun lit :: "string \<Rightarrow> regex" where
  "lit [] = Eps"
| "lit (c # cs) = Seq (Chr c) (lit cs)"

fun alts :: "regex list \<Rightarrow> regex" where
  "alts [] = Cls (\<lambda>_. False)"
| "alts [r] = r"
| "alts (r # rs) = Alt r (alts rs)"

fun seqs :: "regex list \<Rightarrow> regex" where
  "seqs [] = Eps"
| "seqs (r # rs) = Seq r (seqs rs)"

definition Plus :: "regex \<Rightarrow> regex" where
  "Plus r = Rep 1 None r"

definition Opt :: "regex \<Rightarrow> regex" where
  "Opt r = Rep 0 (Some 1) r"

section \<open>Link detection (TGBot2.py)\<close>

text \<open>The class \<open>[\w\-.~:/?#\[\]@!$&'()*+,;=%]\<close>; the apostrophe is character 39.\<close>

definition url_chars :: "char \<Rightarrow> bool" where
  "url_chars c = (is_word c \<or> c \<in> set ''-.~:/?#[]@!$&()*+,;=%'' \<or> c = CHR 0x27)"

definition host_chars :: "char \<Rightarrow> bool" where
  "host_chars c = (is_word c \<or> c = CHR ''-'')"

definition path_chars :: "char \<Rightarrow> bool" where
  "path_chars c = (is_word c \<or> c \<in> set ''-./?=&%'')"

definition URL_RE :: regex where
  "URL_RE = alts [
     seqs [lit ''http'', Opt (Chr CHR ''s''), lit ''://'', Plus (Cls url_chars)],
     seqs [lit ''www.'', Plus (Cls host_chars), Chr CHR ''.'', Plus (Cls path_chars)],
     seqs [Plus (Cls host_chars), Chr CHR ''.'',
           alts (map lit [''com'', ''net'', ''org'', ''in'', ''io'', ''info'', ''biz'',
                          ''co'', ''me'', ''xyz'', ''tk'']),
           WordB]]"

definition IP_RE :: regex where
  "IP_RE = seqs [WordB,
                 Rep 3 (Some 3) (Seq (Rep 1 (Some 3) (Cls is_digit)) (Chr CHR ''.'')),
                 Rep 1 (Some 3) (Cls is_digit),
                 WordB]"

definition SHORTENER_DOMAINS :: "string list" where
  "SHORTENER_DOMAINS = [''bit.ly'', ''t.co'', ''tinyurl.com'', ''goo.gl'', ''is.gd'', ''ow.ly'']"

definition SHORTENER_RE :: regex where
  "SHORTENER_RE = seqs [WordB, alts (map lit SHORTENER_DOMAINS), WordB]"

text \<open>The two patterns of \<open>normalize_obfuscated\<close>, both with \<open>re.IGNORECASE\<close>.\<close>

definition DOT_RE :: regex where
  "DOT_RE = alts [lit ''[.]'', lit ''{.}'', lit ''(dot)'',
                  seqs [Cls is_space, lit ''dot'', Cls is_space]]"

definition AT_RE :: regex where
  "AT_RE = alts [lit ''[at]'', lit ''(at)'', seqs [Cls is_space, lit ''at'', Cls is_space]]"

definition normalize_obfuscated :: "string \<Rightarrow> string" where
  "normalize_obfuscated text =
     (let t = sub True DOT_RE ''.'' None text;
          t = sub True AT_RE ''@'' None t
      in t)"

definition text_contains_link :: "string \<Rightarrow> bool" where
  "text_contains_link text =
     (if text = [] then False
      else let t = normalize_obfuscated text in
        if search True URL_RE None t then True
        else if search False IP_RE None t then True
        else if search True SHORTENER_RE None t then True
        else False)"

section \<open>Link and banned-word detection (TGBot.py)\<close>

definition BANNED_WORDS :: "string list" where
  "BANNED_WORDS = [''badword1'', ''badword2'', ''somevulgarword'']"

definition not_space :: "char \<Rightarrow> bool" where
  "not_space c = (\<not> is_space c)"

definition LINK_PATTERN :: regex where
  "LINK_PATTERN = alts [
     seqs [lit ''http'', Opt (Chr CHR ''s''), lit ''://''],
     lit ''www.'',
     lit ''t.me/'',
     lit ''telegram.me/'',
     seqs [Plus (Cls not_space), lit ''.com'', WordB],
     seqs [Plus (Cls not_space), lit ''.in'', WordB]]"

fun any_word_in :: "string list \<Rightarrow> string \<Rightarrow> bool" where
  "any_word_in [] lowered = False"
| "any_word_in (w # ws) lowered = (if str_in w lowered then True else any_word_in ws lowered)"

definition contains_link_or_banned :: "string \<Rightarrow> bool" where
  "contains_link_or_banned text =
     (if text = [] then False
      else if search True LINK_PATTERN None text then True
      else let lowered = lower text in any_word_in BANNED_WORDS lowered)"

section \<open>More string functions\<close>

text \<open>\<open>s.strip()\<close>, \<open>s.isdigit()\<close>, \<open>int(s)\<close>, \<open>s.split("=", 1)[1]\<close> and \<open>" ".join(xs)\<close>.\<close>

definition strip :: "string \<Rightarrow> string" where
  "strip s = rev (dropWhile is_space (rev (dropWhile is_space s)))"

text \<open>
  Below 256, \<open>str.isdigit\<close> holds for the ten digits and for the superscripts two, three
  and one (178, 179, 185), which \<open>int\<close> rejects with \<open>ValueError\<close>.
\<close>

definition isdigit_char :: "char \<Rightarrow> bool" where
  "isdigit_char c = (let n = (of_char c :: nat) in
     (48 \<le> n \<and> n \<le> 57) \<or> n = 178 \<or> n = 179 \<or> n = 185)"

definition isdigit :: "string \<Rightarrow> bool" where
  "isdigit s = (s \<noteq> [] \<and> list_all isdigit_char s)"

definition digit_value :: "char \<Rightarrow> int" where
  "digit_value c = int (of_char c) - 48"

text \<open>\<open>int(s)\<close> for a string that passed \<open>isdigit\<close>; \<open>None\<close> is the \<open>ValueError\<close>.\<close>

definition py_int :: "string \<Rightarrow> int option" where
  "py_int s = (if s \<noteq> [] \<and> list_all is_digit s
               then Some (foldl (\<lambda>n c. 10 * n + digit_value c) 0 s) else None)"

text \<open>The part behind the first \<open>=\<close> of a token that holds one.\<close>

definition after_eq :: "string \<Rightarrow> string" where
  "after_eq token = drop 1 (dropWhile (\<lambda>c. c \<noteq> CHR ''='') token)"

fun join :: "string \<Rightarrow> string list \<Rightarrow> string" where
  "join sep [] = []"
| "join sep [x] = x"
| "join sep (x # y # ys) = x @ sep @ join sep (y # ys)"

section \<open>Python sets of words\<close>

text \<open>
  A Python set is modelled by the list of its elements, without repetition, in one of
  the orders in which Python may enumerate it; what is proved below about the sets
  speaks of \<open>set\<close> of these lists, so it holds for every order.
\<close>

definition set_of_list :: "'a list \<Rightarrow> 'a list" where
  "set_of_list xs = remdups xs"

definition set_union :: "'a list \<Rightarrow> 'a list \<Rightarrow> 'a list" where
  "set_union a b = a @ filter (\<lambda>x. x \<notin> set a) b"

definition set_add :: "'a \<Rightarrow> 'a list \<Rightarrow> 'a list" where
  "set_add x a = (if x \<in> set a then a else a @ [x])"

definition set_discard :: "'a \<Rightarrow> 'a list \<Rightarrow> 'a list" where
  "set_discard x a = removeAll x a"

section \<open>The state store\<close>

text \<open>
  The keys of the JSON objects are \<open>str(chat_id)\<close> and \<open>str(user_id)\<close>; \<open>str\<close> is
  injective on integers, and the embedding keeps the integer as the key. The dictionary
  of users keeps its insertion order (a broadcast walks through it), so it is an
  association list; the others are maps.
\<close>

type_synonym chat_id = int
type_synonym user_id = int

record user_entry =
  first_name :: string
  last_name :: string
  username :: string
  chats :: "chat_id list"

text \<open>An entry of \<open>chats_config\<close> as it is stored: a JSON object whose keys may be missing.\<close>

record stored_conf =
  stored_delete_links :: "bool option"
  stored_warn_limit :: "int option"
  stored_ban_on_limit :: "bool option"
  stored_banned_words :: "string list option"

record data =
  users :: "(user_id \<times> user_entry) list"
  warnings :: "chat_id \<rightharpoonup> (user_id \<rightharpoonup> int)"
  banned :: "chat_id \<rightharpoonup> user_id list"
  files :: "(string \<times> string \<times> string) list"
  channels :: "int list"
  chats_config :: "chat_id \<rightharpoonup> stored_conf"

definition DEFAULT_DATA :: data where
  "DEFAULT_DATA = \<lparr>users = [], warnings = Map.empty, banned = Map.empty, files = [],
                    channels = [], chats_config = Map.empty\<rparr>"

text \<open>
  The file \<open>DATA_FILE\<close>: absent, present but not readable, readable but not JSON, or a
  JSON object, in which any of the top-level keys may be missing. Other JSON documents
  (a list, a number) are outside the model.
\<close>

record json_obj =
  j_users :: "(user_id \<times> user_entry) list option"
  j_warnings :: "(chat_id \<rightharpoonup> (user_id \<rightharpoonup> int)) option"
  j_banned :: "(chat_id \<rightharpoonup> user_id list) option"
  j_files :: "(string \<times> string \<times> string) list option"
  j_channels :: "int list option"
  j_chats_config :: "(chat_id \<rightharpoonup> stored_conf) option"

datatype disk = Absent | Unreadable | Malformed | Object json_obj

text \<open>\<open>json.dump\<close> of the data of TGBot2.py: every key is written.\<close>

definition to_json :: "data \<Rightarrow> json_obj" where
  "to_json d = \<lparr>j_users = Some (users d), j_warnings = Some (warnings d),
                 j_banned = Some (banned d), j_files = Some (files d),
                 j_channels = Some (channels d), j_chats_config = Some (chats_config d)\<rparr>"

section \<open>The messaging gateway\<close>

text \<open>
  What the bot sends is kept as a value, not as the formatted text. Every call to the
  platform is an action; the gateway decides, from the number of calls made so far and
  the action, whether the call succeeds (\<open>True\<close>) or raises. The world records each
  call with its outcome.
\<close>

record config =
  delete_links :: bool
  warn_limit :: int
  ban_on_limit :: bool
  banned_words :: "string list"

datatype notice =
    Text string
  | WarningNotice user_id int int
  | BanNotice user_id
  | NotAllowed
  | NotPermitted
  | UseInGroup
  | UsageExamples
  | UsageBroadcast
  | UsageUnban
  | ProvideNumeric
  | UpdatedConfig config
  | BroadcastReport int int
  | UserUnbanned
  | Failed

datatype action =
    DeleteMessage chat_id int
  | SendMessage int notice
  | ForwardMessage int chat_id int
  | BanChatMember chat_id user_id
  | UnbanChatMember chat_id user_id
  | ReplyText notice

type_synonym gateway = "nat \<Rightarrow> action \<Rightarrow> bool"

record world =
  data :: data
  disk :: disk
  writable :: bool
  calls :: "(action \<times> bool) list"

definition call :: "gateway \<Rightarrow> action \<Rightarrow> world \<Rightarrow> bool \<times> world" where
  "call gw a w = (let ok = gw (length (calls w)) a in (ok, w\<lparr>calls := calls w @ [(a, ok)]\<rparr>))"

datatype exn = TelegramError | ValueError | OSError | JSONDecodeError

datatype 'a outcome = Returned 'a | Raised exn

text \<open>\<open>update.message.reply_text(...)\<close> outside a \<open>try\<close>: a failure leaves the handler.\<close>

definition reply :: "gateway \<Rightarrow> notice \<Rightarrow> world \<Rightarrow> unit outcome \<times> world" where
  "reply gw n w = (let (ok, w') = call gw (ReplyText n) w
                   in (if ok then Returned () else Raised TelegramError, w'))"

section \<open>Persistence (TGBot2.py)\<close>

text \<open>\<open>save_data(obj)\<close>: a failing write is logged and swallowed.\<close>

definition save_data :: "data \<Rightarrow> world \<Rightarrow> world" where
  "save_data obj w = (if writable w then w\<lparr>disk := Object (to_json obj)\<rparr> else w)"

text \<open>The loop \<open>for k, v in DEFAULT_DATA.items(): if k not in obj: obj[k] = v\<close>.\<close>

definition fill_defaults :: "json_obj \<Rightarrow> data" where
  "fill_defaults obj =
     \<lparr>users = (case j_users obj of None \<Rightarrow> users DEFAULT_DATA | Some v \<Rightarrow> v),
      warnings = (case j_warnings obj of None \<Rightarrow> warnings DEFAULT_DATA | Some v \<Rightarrow> v),
      banned = (case j_banned obj of None \<Rightarrow> banned DEFAULT_DATA | Some v \<Rightarrow> v),
      files = (case j_files obj of None \<Rightarrow> files DEFAULT_DATA | Some v \<Rightarrow> v),
      channels = (case j_channels obj of None \<Rightarrow> channels DEFAULT_DATA | Some v \<Rightarrow> v),
      chats_config = (case j_chats_config obj of None \<Rightarrow> chats_config DEFAULT_DATA | Some v \<Rightarrow> v)\<rparr>"

text \<open>
  \<open>load_data()\<close>: \<open>os.path.exists\<close> fails for \<open>Absent\<close>; \<open>open\<close> raises for
  \<open>Unreadable\<close> and \<open>json.load\<close> for \<open>Malformed\<close>, both inside the \<open>try\<close>.
\<close>

definition load_data :: "world \<Rightarrow> data \<times> world" where
  "load_data w =
     (case disk w of
        Absent \<Rightarrow> (let w' = save_data DEFAULT_DATA w in (DEFAULT_DATA, w'))
      | Unreadable \<Rightarrow> (DEFAULT_DATA, w)
      | Malformed \<Rightarrow> (DEFAULT_DATA, w)
      | Object obj \<Rightarrow> (fill_defaults obj, w))"

text \<open>The module-level \<open>data = load_data()\<close>.\<close>

definition startup :: "world \<Rightarrow> world" where
  "startup w = (let (d, w') = load_data w in w'\<lparr>data := d\<rparr>)"

section \<open>Persistence (TGBot.py)\<close>

text \<open>
  \<open>DEFAULT_DATA\<close> of TGBot.py has no key \<open>chats_config\<close>. Neither function has a
  \<open>try\<close>: what \<open>open\<close> and \<open>json.load\<close> raise leaves them. \<open>load_data\<close> returns the
  parsed object as it is.
\<close>

definition DEFAULT_DATA_polling :: json_obj where
  "DEFAULT_DATA_polling = \<lparr>j_users = Some [], j_warnings = Some Map.empty,
     j_banned = Some Map.empty, j_files = Some [], j_channels = Some [],
     j_chats_config = None\<rparr>"

definition save_data_polling :: "json_obj \<Rightarrow> world \<Rightarrow> unit outcome \<times> world" where
  "save_data_polling obj w =
     (if writable w then (Returned (), w\<lparr>disk := Object obj\<rparr>) else (Raised OSError, w))"

definition load_data_polling :: "world \<Rightarrow> json_obj outcome \<times> world" where
  "load_data_polling w =
     (case disk w of
        Absent \<Rightarrow>
          (case save_data_polling DEFAULT_DATA_polling w of
             (Raised e, w') \<Rightarrow> (Raised e, w')
           | (Returned u, w') \<Rightarrow> (Returned DEFAULT_DATA_polling, w'))
      | Unreadable \<Rightarrow> (Raised OSError, w)
      | Malformed \<Rightarrow> (Raised JSONDecodeError, w)
      | Object obj \<Rightarrow> (Returned obj, w))"

section \<open>Store operations (TGBot2.py)\<close>

record tg_user =
  user_id :: int
  user_first_name :: "string option"
  user_last_name :: "string option"
  user_username :: "string option"

datatype chat_type = Private | Group | Supergroup | Channel

record chat =
  chat_id :: int
  chat_type :: chat_type

record message =
  message_id :: int
  msg_text :: "string option"
  msg_caption :: "string option"

text \<open>\<open>x or ""\<close> for an optional string.\<close>

definition or_empty :: "string option \<Rightarrow> string" where
  "or_empty x = (case x of None \<Rightarrow> [] | Some s \<Rightarrow> s)"

definition is_admin :: "int list \<Rightarrow> int \<Rightarrow> bool" where
  "is_admin ADMIN_IDS uid = (uid \<in> set ADMIN_IDS)"

definition ensure_user_registered :: "tg_user \<Rightarrow> chat_id option \<Rightarrow> world \<Rightarrow> world" where
  "ensure_user_registered user cid w =
     (let uid = user_id user;
          w1 = (if map_of (users (data w)) uid = None
                then let d = (data w)\<lparr>users := users (data w) @
                        [(uid, \<lparr>first_name = or_empty (user_first_name user),
                                last_name = or_empty (user_last_name user),
                                username = or_empty (user_username user),
                                chats = []\<rparr>)]\<rparr>
                     in save_data d (w\<lparr>data := d\<rparr>)
                else w)
      in case cid of
           None \<Rightarrow> w1
         | Some c \<Rightarrow>
             (case map_of (users (data w1)) uid of
                None \<Rightarrow> w1
              | Some e \<Rightarrow>
                  if c \<notin> set (chats e)
                  then let d = (data w1)\<lparr>users :=
                          AList.update uid (e\<lparr>chats := chats e @ [c]\<rparr>) (users (data w1))\<rparr>
                       in save_data d (w1\<lparr>data := d\<rparr>)
                  else w1))"

definition delete_links_default :: bool where "delete_links_default = True"
definition warn_limit_default :: int where "warn_limit_default = 3"
definition ban_on_limit_default :: bool where "ban_on_limit_default = True"

definition GLOBAL_BANNED_WORDS :: "string list" where
  "GLOBAL_BANNED_WORDS = [''badword1'', ''badword2'', ''somevulgarword'']"

definition empty_conf :: stored_conf where
  "empty_conf = \<lparr>stored_delete_links = None, stored_warn_limit = None,
                  stored_ban_on_limit = None, stored_banned_words = None\<rparr>"

definition get_chat_config :: "data \<Rightarrow> chat_id \<Rightarrow> config" where
  "get_chat_config d cid =
     (let conf = (case chats_config d cid of None \<Rightarrow> empty_conf | Some c \<Rightarrow> c)
      in \<lparr>delete_links = (case stored_delete_links conf of
                             None \<Rightarrow> delete_links_default | Some b \<Rightarrow> b),
           warn_limit = (case stored_warn_limit conf of
                           None \<Rightarrow> warn_limit_default | Some n \<Rightarrow> n),
           ban_on_limit = (case stored_ban_on_limit conf of
                             None \<Rightarrow> ban_on_limit_default | Some b \<Rightarrow> b),
           banned_words = set_union
             (set_of_list (case stored_banned_words conf of None \<Rightarrow> [] | Some ws \<Rightarrow> ws))
             GLOBAL_BANNED_WORDS\<rparr>)"

text \<open>
  \<open>set_chat_config(chat_id, conf)\<close> stores the dictionary it is given, here the one
  \<open>cmd_setconfig\<close> built from \<open>get_chat_config\<close>, with all four keys.
\<close>

definition set_chat_config :: "chat_id \<Rightarrow> config \<Rightarrow> world \<Rightarrow> world" where
  "set_chat_config cid conf w =
     (let d = (data w)\<lparr>chats_config := (chats_config (data w))(cid \<mapsto>
                 \<lparr>stored_delete_links = Some (delete_links conf),
                  stored_warn_limit = Some (warn_limit conf),
                  stored_ban_on_limit = Some (ban_on_limit conf),
                  stored_banned_words = Some (banned_words conf)\<rparr>)\<rparr>
      in save_data d (w\<lparr>data := d\<rparr>))"

text \<open>The count read as \<open>data["warnings"][ckey].get(ukey, 0)\<close> (\<open>get_warnings\<close> in TGBot.py).\<close>

definition get_warnings :: "data \<Rightarrow> chat_id \<Rightarrow> user_id \<Rightarrow> int" where
  "get_warnings d cid uid =
     (case warnings d cid of
        None \<Rightarrow> 0
      | Some m \<Rightarrow> (case m uid of None \<Rightarrow> 0 | Some n \<Rightarrow> n))"

definition increment_warning :: "chat_id \<Rightarrow> user_id \<Rightarrow> world \<Rightarrow> int \<times> world" where
  "increment_warning cid uid w =
     (let m = (case warnings (data w) cid of None \<Rightarrow> Map.empty | Some m \<Rightarrow> m);
          n = (case m uid of None \<Rightarrow> 0 | Some n \<Rightarrow> n) + 1;
          d = (data w)\<lparr>warnings := (warnings (data w))(cid \<mapsto> m(uid \<mapsto> n))\<rparr>
      in (n, save_data d (w\<lparr>data := d\<rparr>)))"

definition reset_warnings :: "chat_id \<Rightarrow> user_id \<Rightarrow> world \<Rightarrow> world" where
  "reset_warnings cid uid w =
     (case warnings (data w) cid of
        None \<Rightarrow> w
      | Some m \<Rightarrow>
          if uid \<in> dom m
          then let d = (data w)\<lparr>warnings := (warnings (data w))(cid \<mapsto> m(uid \<mapsto> 0))\<rparr>
               in save_data d (w\<lparr>data := d\<rparr>)
          else w)"

definition ban_user_record :: "chat_id \<Rightarrow> user_id \<Rightarrow> world \<Rightarrow> world" where
  "ban_user_record cid uid w =
     (let l = (case banned (data w) cid of None \<Rightarrow> [] | Some l \<Rightarrow> l);
          d0 = (data w)\<lparr>banned := (banned (data w))(cid \<mapsto> l)\<rparr>
      in if uid \<notin> set l
         then let d = d0\<lparr>banned := (banned d0)(cid \<mapsto> l @ [uid])\<rparr>
              in save_data d (w\<lparr>data := d\<rparr>)
         else w\<lparr>data := d0\<rparr>)"

definition is_user_banned :: "data \<Rightarrow> chat_id \<Rightarrow> user_id \<Rightarrow> bool" where
  "is_user_banned d cid uid = (uid \<in> set (case banned d cid of None \<Rightarrow> [] | Some l \<Rightarrow> l))"

section \<open>Handlers (TGBot2.py)\<close>

text \<open>
  A command as the handler sees it: the sender, the chat, the message replied to (if
  any) and \<open>context.args\<close>. \<open>ADMIN_IDS\<close> is read from the environment, so it is a
  parameter.
\<close>

record command =
  sender :: tg_user
  cmd_chat :: chat
  reply_to_message :: "message option"
  args :: "string list"

text \<open>One round of the two loops of \<open>cmd_broadcast\<close>, for each recipient in turn.\<close>

fun attempt_all ::
  "gateway \<Rightarrow> (int \<Rightarrow> action) \<Rightarrow> int list \<Rightarrow> int \<times> int \<times> world \<Rightarrow> int \<times> int \<times> world" where
  "attempt_all gw mk [] acc = acc"
| "attempt_all gw mk (r # rs) (sent, failed, w) =
     (let (ok, w') = call gw (mk r) w
      in attempt_all gw mk rs (if ok then (sent + 1, failed, w') else (sent, failed + 1, w')))"

definition cmd_broadcast :: "gateway \<Rightarrow> int list \<Rightarrow> command \<Rightarrow> world \<Rightarrow> unit outcome \<times> world" where
  "cmd_broadcast gw ADMIN_IDS cmd w =
     (if \<not> is_admin ADMIN_IDS (user_id (sender cmd)) then reply gw NotAllowed w
      else case (reply_to_message cmd, args cmd) of
        (Some forward_msg, []) \<Rightarrow>
          (let recipients = map fst (users (data w));
               mk = (\<lambda>rid. ForwardMessage rid (chat_id (cmd_chat cmd)) (message_id forward_msg));
               acc = attempt_all gw mk recipients (0, 0, w);
               (sent, failed, w') = attempt_all gw mk (channels (data w)) acc
           in reply gw (BroadcastReport sent failed) w')
      | _ \<Rightarrow>
          (let text = join '' '' (args cmd);
               recipients = map fst (users (data w));
               mk = (\<lambda>rid. SendMessage rid (Text text));
               acc = attempt_all gw mk recipients (0, 0, w);
               (sent, failed, w') = attempt_all gw mk (channels (data w)) acc
           in reply gw (BroadcastReport sent failed) w'))"

text \<open>
  \<open>cmd_unban\<close>: the gateway call and the confirmation are inside the \<open>try\<close>; the ban
  ledger \<open>data["banned"]\<close> is not touched.
\<close>

definition cmd_unban :: "gateway \<Rightarrow> int list \<Rightarrow> command \<Rightarrow> world \<Rightarrow> unit outcome \<times> world" where
  "cmd_unban gw ADMIN_IDS cmd w =
     (if \<not> is_admin ADMIN_IDS (user_id (sender cmd)) then reply gw NotPermitted w
      else if args cmd = [] \<or> \<not> isdigit (hd (args cmd)) then reply gw UsageUnban w
      else case py_int (hd (args cmd)) of
        None \<Rightarrow> (Raised ValueError, w)
      | Some target \<Rightarrow>
          (let (ok, w1) = call gw (UnbanChatMember (chat_id (cmd_chat cmd)) target) w
           in if ok
              then let (ok2, w2) = call gw (ReplyText UserUnbanned) w1
                   in if ok2 then (Returned (), w2) else reply gw Failed w2
              else reply gw Failed w1))"

text \<open>One token of \<open>/setconfig\<close>, in the order of the \<open>if\<close>/\<open>elif\<close> chain.\<close>

definition truthy_word :: "string \<Rightarrow> bool" where
  "truthy_word v = (v \<in> set [''1'', ''true'', ''yes'', ''on''])"

definition apply_token :: "string \<Rightarrow> config \<Rightarrow> config outcome" where
  "apply_token token conf =
     (if starts_with token ''delete_links='' then
        Returned (conf\<lparr>delete_links := truthy_word (lower (after_eq token))\<rparr>)
      else if starts_with token ''warn_limit='' \<and> isdigit (after_eq token) then
        (case py_int (after_eq token) of
           None \<Rightarrow> Raised ValueError
         | Some n \<Rightarrow> Returned (conf\<lparr>warn_limit := n\<rparr>))
      else if starts_with token ''ban_on_limit='' then
        Returned (conf\<lparr>ban_on_limit := truthy_word (lower (after_eq token))\<rparr>)
      else if starts_with token ''add_banned='' then
        Returned (conf\<lparr>banned_words :=
          set_add (lower (strip (after_eq token))) (banned_words conf)\<rparr>)
      else if starts_with token ''remove_banned='' then
        Returned (conf\<lparr>banned_words :=
          set_discard (lower (strip (after_eq token))) (banned_words conf)\<rparr>)
      else Returned conf)"

fun apply_tokens :: "string list \<Rightarrow> config \<Rightarrow> config outcome" where
  "apply_tokens [] conf = Returned conf"
| "apply_tokens (token # rest) conf =
     (case apply_token token conf of
        Raised e \<Rightarrow> Raised e
      | Returned conf' \<Rightarrow> apply_tokens rest conf')"

definition cmd_setconfig :: "gateway \<Rightarrow> int list \<Rightarrow> command \<Rightarrow> world \<Rightarrow> unit outcome \<times> world" where
  "cmd_setconfig gw ADMIN_IDS cmd w =
     (if \<not> is_admin ADMIN_IDS (user_id (sender cmd)) then reply gw NotPermitted w
      else if chat_type (cmd_chat cmd) = Private then reply gw UseInGroup w
      else if args cmd = [] then reply gw UsageExamples w
      else case apply_tokens (args cmd) (get_chat_config (data w) (chat_id (cmd_chat cmd))) of
        Raised e \<Rightarrow> (Raised e, w)
      | Returned conf \<Rightarrow>
          (let w1 = set_chat_config (chat_id (cmd_chat cmd)) conf w
           in reply gw (UpdatedConfig conf) w1))"

record update =
  effective_message :: "message option"
  effective_user :: "tg_user option"
  effective_chat :: "chat option"

text \<open>
  \<open>message_handler\<close>. Every gateway call is inside a \<open>try\<close> whose handler only logs, so
  the handler returns in every case. A word returned by \<open>text_contains_banned_word\<close>
  is tested for truth, as \<open>link_present or banned_word\<close> does.
\<close>

definition truthy :: "string option \<Rightarrow> bool" where
  "truthy x = (case x of None \<Rightarrow> False | Some s \<Rightarrow> s \<noteq> [])"

definition message_handler :: "gateway \<Rightarrow> update \<Rightarrow> world \<Rightarrow> world" where
  "message_handler gw upd w =
     (case (effective_message upd, effective_user upd, effective_chat upd) of
        (Some msg, Some user, Some chat) \<Rightarrow>
          (let w1 = ensure_user_registered user (Some (chat_id chat)) w
           in if chat_type chat \<in> {Group, Supergroup} then
                (let text = or_empty (msg_text msg) @ '' '' @ or_empty (msg_caption msg);
                     conf = get_chat_config (data w1) (chat_id chat);
                     link_present = text_contains_link text;
                     banned_word = text_contains_banned_word (Some text) (banned_words conf)
                 in if delete_links conf \<and> (link_present \<or> truthy banned_word) then
                      (let (deleted, w2) = call gw (DeleteMessage (chat_id chat) (message_id msg)) w1;
                           (new_count, w3) = increment_warning (chat_id chat) (user_id user) w2;
                           (notified, w4) = call gw (SendMessage (chat_id chat)
                              (WarningNotice (user_id user) new_count (warn_limit conf))) w3
                       in if new_count \<ge> warn_limit conf \<and> ban_on_limit conf then
                            (let (ok, w5) = call gw (BanChatMember (chat_id chat) (user_id user)) w4
                             in if ok then
                                  (let w6 = ban_user_record (chat_id chat) (user_id user) w5;
                                       (told, w7) = call gw (SendMessage (chat_id chat)
                                          (BanNotice (user_id user))) w6
                                   in w7)
                                else w5)
                          else w4)
                    else w1)
              else w1)
      | _ \<Rightarrow> w)"

section \<open>Store operations and handlers (TGBot.py)\<close>

text \<open>
  TGBot.py keeps the same dictionary without \<open>chats_config\<close>; \<open>save_data(data)\<close> writes
  the five keys and raises when the write fails.
\<close>

definition to_json_polling :: "data \<Rightarrow> json_obj" where
  "to_json_polling d = (to_json d)\<lparr>j_chats_config := None\<rparr>"

definition unban_user_record :: "chat_id \<Rightarrow> user_id \<Rightarrow> world \<Rightarrow> unit outcome \<times> world" where
  "unban_user_record cid uid w =
     (case banned (data w) cid of
        None \<Rightarrow> (Returned (), w)
      | Some l \<Rightarrow>
          if uid \<in> set l
          then let d = (data w)\<lparr>banned := (banned (data w))(cid \<mapsto> remove1 uid l)\<rparr>
               in save_data_polling (to_json_polling d) (w\<lparr>data := d\<rparr>)
          else (Returned (), w))"

definition ADMIN_IDS_polling :: "int list" where
  "ADMIN_IDS_polling = [1293486023]"

definition cmd_unban_polling :: "gateway \<Rightarrow> command \<Rightarrow> world \<Rightarrow> unit outcome \<times> world" where
  "cmd_unban_polling gw cmd w =
     (if \<not> is_admin ADMIN_IDS_polling (user_id (sender cmd)) then reply gw NotPermitted w
      else if args cmd = [] then reply gw UsageUnban w
      else if \<not> isdigit (hd (args cmd)) then reply gw ProvideNumeric w
      else case py_int (hd (args cmd)) of
        None \<Rightarrow> (Raised ValueError, w)
      | Some target_id \<Rightarrow>
          (let (ok, w1) = call gw (UnbanChatMember (chat_id (cmd_chat cmd)) target_id) w
           in if ok then
                (case unban_user_record (chat_id (cmd_chat cmd)) target_id w1 of
                   (Raised e, w2) \<Rightarrow> reply gw Failed w2
                 | (Returned u, w2) \<Rightarrow>
                     (let (ok2, w3) = call gw (ReplyText UserUnbanned) w2
                      in if ok2 then (Returned (), w3) else reply gw Failed w3))
              else reply gw Failed w1))"

text \<open>
  \<open>cmd_broadcast\<close> of TGBot.py: the forwarding branch walks through the users only;
  the text branch through the users and then \<open>data["channels"]\<close>.
\<close>

definition cmd_broadcast_polling :: "gateway \<Rightarrow> command \<Rightarrow> world \<Rightarrow> unit outcome \<times> world" where
  "cmd_broadcast_polling gw cmd w =
     (if \<not> is_admin ADMIN_IDS_polling (user_id (sender cmd)) then reply gw NotAllowed w
      else if args cmd = [] \<and> reply_to_message cmd = None then reply gw UsageBroadcast w
      else case (reply_to_message cmd, args cmd) of
        (Some forward_from, []) \<Rightarrow>
          (let recipients = map fst (users (data w));
               mk = (\<lambda>rid. ForwardMessage rid (chat_id (cmd_chat cmd)) (message_id forward_from));
               (sent, failed, w') = attempt_all gw mk recipients (0, 0, w)
           in reply gw (BroadcastReport sent failed) w')
      | _ \<Rightarrow>
          (let text = join '' '' (args cmd);
               recipients = map fst (users (data w));
               channel_ids = channels (data w);
               mk = (\<lambda>rid. SendMessage rid (Text text));
               (sent, failed, w') = attempt_all gw mk (recipients @ channel_ids) (0, 0, w)
           in reply gw (BroadcastReport sent failed) w'))"

text \<open>
  The store operations of TGBot.py that \<open>message_handler\<close> uses. They are the
  statements of TGBot2.py followed by a \<open>save_data\<close> that raises when the write
  fails; the dictionary is changed before that, so the change stays in memory.
  \<open>ensure_chat_user\<close> registers an unknown user without saving.
\<close>

definition WARN_LIMIT :: int where
  "WARN_LIMIT = 3"

definition ensure_chat_user ::
  "chat_id \<Rightarrow> user_id \<Rightarrow> tg_user \<Rightarrow> world \<Rightarrow> unit outcome \<times> world" where
  "ensure_chat_user cid uid user w =
     (let d1 = (if map_of (users (data w)) uid = None
                then (data w)\<lparr>users := users (data w) @
                        [(uid, \<lparr>first_name = or_empty (user_first_name user),
                                last_name = or_empty (user_last_name user),
                                username = or_empty (user_username user),
                                chats = []\<rparr>)]\<rparr>
                else data w)
      in case map_of (users d1) uid of
           None \<Rightarrow> (Returned (), w\<lparr>data := d1\<rparr>)
         | Some e \<Rightarrow>
             if cid \<notin> set (chats e)
             then let d = d1\<lparr>users := AList.update uid (e\<lparr>chats := chats e @ [cid]\<rparr>) (users d1)\<rparr>
                  in save_data_polling (to_json_polling d) (w\<lparr>data := d\<rparr>)
             else (Returned (), w\<lparr>data := d1\<rparr>))"

definition increment_warning_polling ::
  "chat_id \<Rightarrow> user_id \<Rightarrow> world \<Rightarrow> int outcome \<times> world" where
  "increment_warning_polling cid uid w =
     (let m = (case warnings (data w) cid of None \<Rightarrow> Map.empty | Some m \<Rightarrow> m);
          n = (case m uid of None \<Rightarrow> 0 | Some n \<Rightarrow> n) + 1;
          d = (data w)\<lparr>warnings := (warnings (data w))(cid \<mapsto> m(uid \<mapsto> n))\<rparr>
      in case save_data_polling (to_json_polling d) (w\<lparr>data := d\<rparr>) of
           (Raised e, w') \<Rightarrow> (Raised e, w')
         | (Returned u, w') \<Rightarrow> (Returned n, w'))"

definition reset_warnings_polling ::
  "chat_id \<Rightarrow> user_id \<Rightarrow> world \<Rightarrow> unit outcome \<times> world" where
  "reset_warnings_polling cid uid w =
     (case warnings (data w) cid of
        None \<Rightarrow> (Returned (), w)
      | Some m \<Rightarrow>
          if uid \<in> dom m
          then let d = (data w)\<lparr>warnings := (warnings (data w))(cid \<mapsto> m(uid \<mapsto> 0))\<rparr>
               in save_data_polling (to_json_polling d) (w\<lparr>data := d\<rparr>)
          else (Returned (), w))"

definition ban_user_record_polling ::
  "chat_id \<Rightarrow> user_id \<Rightarrow> world \<Rightarrow> unit outcome \<times> world" where
  "ban_user_record_polling cid uid w =
     (let l = (case banned (data w) cid of None \<Rightarrow> [] | Some l \<Rightarrow> l);
          d0 = (data w)\<lparr>banned := (banned (data w))(cid \<mapsto> l)\<rparr>
      in if uid \<notin> set l
         then let d = d0\<lparr>banned := (banned d0)(cid \<mapsto> l @ [uid])\<rparr>
              in save_data_polling (to_json_polling d) (w\<lparr>data := d\<rparr>)
         else (Returned (), w\<lparr>data := d0\<rparr>))"

text \<open>
  \<open>message_handler\<close> of TGBot.py. \<open>ensure_chat_user\<close> and \<open>increment_warning\<close> are
  called outside any \<open>try\<close>, so what they raise leaves the handler; \<open>ban_user_record\<close>
  is inside the \<open>try\<close> of the ban, whose handler only logs.
\<close>

definition message_handler_polling :: "gateway \<Rightarrow> update \<Rightarrow> world \<Rightarrow> unit outcome \<times> world" where
  "message_handler_polling gw upd w =
     (case (effective_message upd, effective_user upd, effective_chat upd) of
        (Some msg, Some user, Some chat) \<Rightarrow>
          (case ensure_chat_user (chat_id chat) (user_id user) user w of
             (Raised e, w1) \<Rightarrow> (Raised e, w1)
           | (Returned u, w1) \<Rightarrow>
               if chat_type chat \<in> {Group, Supergroup} then
                 (let text = or_empty (msg_text msg) @ '' '' @ or_empty (msg_caption msg)
                  in if contains_link_or_banned text then
                       (let (deleted, w2) = call gw (DeleteMessage (chat_id chat) (message_id msg)) w1
                        in case increment_warning_polling (chat_id chat) (user_id user) w2 of
                             (Raised e, w3) \<Rightarrow> (Raised e, w3)
                           | (Returned new_count, w3) \<Rightarrow>
                               (let (notified, w4) = call gw (SendMessage (chat_id chat)
                                      (WarningNotice (user_id user) new_count WARN_LIMIT)) w3
                                in if new_count \<ge> WARN_LIMIT then
                                     (let (ok, w5) = call gw
                                            (BanChatMember (chat_id chat) (user_id user)) w4
                                      in if ok then
                                           (case ban_user_record_polling (chat_id chat)
                                                   (user_id user) w5 of
                                              (Raised e, w6) \<Rightarrow> (Returned (), w6)
                                            | (Returned u, w6) \<Rightarrow>
                                                (let (told, w7) = call gw (SendMessage (chat_id chat)
                                                       (BanNotice (user_id user))) w6
                                                 in (Returned (), w7)))
                                         else (Returned (), w5))
                                   else (Returned (), w4)))
                     else (Returned (), w1))
               else (Returned (), w1))
      | _ \<Rightarrow> (Returned (), w))"

section \<open>Helper notions for the proofs\<close>

text \<open>Characters a match of the two normalisation patterns can hold behind its first one.\<close>

definition mid :: "char \<Rightarrow> bool" where
  "mid c = (lower_char c \<in> set ''.]})dota'' \<or> is_space c)"

text \<open>The ban requests among the gateway calls of a world.\<close>

definition ban_requests :: "chat_id \<Rightarrow> user_id \<Rightarrow> world \<Rightarrow> nat" where
  "ban_requests cid uid w = length (filter (\<lambda>c. fst c = BanChatMember cid uid) (calls w))"

text \<open>
  Store operations as values, to speak about sequences of them: those of TGBot2.py,
  \<open>unban_user_record\<close> of TGBot.py, and \<open>increment_warning\<close> and \<open>reset_warnings\<close>
  as TGBot.py has them.
\<close>

datatype store_op =
    EnsureUserRegistered tg_user "chat_id option"
  | SetChatConfig chat_id config
  | IncrementWarning chat_id user_id
  | ResetWarnings chat_id user_id
  | BanUserRecord chat_id user_id
  | UnbanUserRecord chat_id user_id
  | IncrementWarningPolling chat_id user_id
  | ResetWarningsPolling chat_id user_id

fun apply_op :: "store_op \<Rightarrow> world \<Rightarrow> world" where
  "apply_op (EnsureUserRegistered u c) w = ensure_user_registered u c w"
| "apply_op (SetChatConfig c conf) w = set_chat_config c conf w"
| "apply_op (IncrementWarning c u) w = snd (increment_warning c u w)"
| "apply_op (ResetWarnings c u) w = reset_warnings c u w"
| "apply_op (BanUserRecord c u) w = ban_user_record c u w"
| "apply_op (UnbanUserRecord c u) w = snd (unban_user_record c u w)"
| "apply_op (IncrementWarningPolling c u) w = snd (increment_warning_polling c u w)"
| "apply_op (ResetWarningsPolling c u) w = snd (reset_warnings_polling c u w)"

text \<open>A world at the start: default data, no gateway call yet, a writable directory.\<close>

definition fresh_world :: "disk \<Rightarrow> world" where
  "fresh_world f = \<lparr>data = DEFAULT_DATA, disk = f, writable = True, calls = []\<rparr>"

text \<open>A gateway on which every call succeeds.\<close>

definition gw_ok :: gateway where
  "gw_ok n a = True"

definition plain_user :: "int \<Rightarrow> tg_user" where
  "plain_user uid = \<lparr>user_id = uid, user_first_name = None, user_last_name = None,
                      user_username = None\<rparr>"

definition no_entry :: user_entry where
  "no_entry = \<lparr>first_name = [], last_name = [], username = [], chats = []\<rparr>"

definition unban_cmd :: "int \<Rightarrow> command" where
  "unban_cmd admin = \<lparr>sender = plain_user admin, cmd_chat = \<lparr>chat_id = -100, chat_type = Group\<rparr>,
     reply_to_message = None, args = [''42'']\<rparr>"

definition banned_world :: world where
  "banned_world = (fresh_world Absent)\<lparr>data := DEFAULT_DATA\<lparr>banned := [-100 \<mapsto> [42]]\<rparr>\<rparr>"

definition failures :: "(action \<times> bool) list \<Rightarrow> int" where
  "failures cs = int (length (filter (\<lambda>c. \<not> snd c) cs))"

definition successes :: "(action \<times> bool) list \<Rightarrow> int" where
  "successes cs = int (length (filter snd cs))"

text \<open>The recipients of a broadcast of TGBot2.py and the action it sends to each.\<close>

definition recipients :: "data \<Rightarrow> int list" where
  "recipients d = map fst (users d) @ channels d"

definition broadcast_action :: "command \<Rightarrow> int \<Rightarrow> action" where
  "broadcast_action cmd rid =
     (case (reply_to_message cmd, args cmd) of
        (Some m, []) \<Rightarrow> ForwardMessage rid (chat_id (cmd_chat cmd)) (message_id m)
      | _ \<Rightarrow> SendMessage rid (Text (join '' '' (args cmd))))"

text \<open>Five registered users; the sends to the users 2 and 4 fail.\<close>

definition five_users :: world where
  "five_users = (fresh_world Absent)\<lparr>data := DEFAULT_DATA\<lparr>users :=
     [(1, no_entry), (2, no_entry), (3, no_entry), (4, no_entry), (5, no_entry)]\<rparr>\<rparr>"

definition gw_fail_2_4 :: gateway where
  "gw_fail_2_4 n a = (case a of SendMessage r m \<Rightarrow> r \<noteq> 2 \<and> r \<noteq> 4 | _ \<Rightarrow> True)"

definition text_cmd :: "int \<Rightarrow> command" where
  "text_cmd admin = \<lparr>sender = plain_user admin, cmd_chat = \<lparr>chat_id = 5, chat_type = Private\<rparr>,
     reply_to_message = None, args = [''hi'']\<rparr>"

text \<open>One user, one channel, and a broadcast that forwards the message replied to.\<close>

definition user_and_channel :: world where
  "user_and_channel = (fresh_world Absent)\<lparr>data := DEFAULT_DATA\<lparr>users := [(1, no_entry)],
     channels := [-100]\<rparr>\<rparr>"

definition forward_cmd :: "int \<Rightarrow> command" where
  "forward_cmd admin = \<lparr>sender = plain_user admin, cmd_chat = \<lparr>chat_id = 5, chat_type = Private\<rparr>,
     reply_to_message = Some \<lparr>message_id = 7, msg_text = Some ''news'', msg_caption = None\<rparr>,
     args = []\<rparr>"

text \<open>A group in which nothing is configured, and an administrator's \<open>/setconfig\<close>.\<close>

definition setconfig_cmd :: "string list \<Rightarrow> command" where
  "setconfig_cmd ts = \<lparr>sender = plain_user 1, cmd_chat = \<lparr>chat_id = -100, chat_type = Group\<rparr>,
     reply_to_message = None, args = ts\<rparr>"

text \<open>The test \<open>link_present or banned_word\<close> of \<open>message_handler\<close> for a message.\<close>

definition violation :: "config \<Rightarrow> message \<Rightarrow> bool" where
  "violation conf msg =
     (let text = or_empty (msg_text msg) @ '' '' @ or_empty (msg_caption msg)
      in text_contains_link text \<or> truthy (text_contains_banned_word (Some text) (banned_words conf)))"

fun handle_all :: "gateway \<Rightarrow> update list \<Rightarrow> world \<Rightarrow> world" where
  "handle_all gw [] w = w"
| "handle_all gw (upd # upds) w = handle_all gw upds (message_handler gw upd w)"

definition from_pair :: "chat \<Rightarrow> tg_user \<Rightarrow> config \<Rightarrow> update \<Rightarrow> bool" where
  "from_pair ch usr conf upd =
     (effective_chat upd = Some ch \<and> effective_user upd = Some usr \<and>
      (case effective_message upd of None \<Rightarrow> False | Some m \<Rightarrow> violation conf m))"

definition link_update :: update where
  "link_update = \<lparr>effective_message =
       Some \<lparr>message_id = 1, msg_text = Some ''http://x.com'', msg_caption = None\<rparr>,
     effective_user = Some (plain_user 7),
     effective_chat = Some \<lparr>chat_id = -100, chat_type = Group\<rparr>\<rparr>"

text \<open>A group whose stored configuration switches \<open>delete_links\<close> off, and a message in
  it with a banned word and a link.\<close>

definition lenient_world :: world where
  "lenient_world = (fresh_world Absent)\<lparr>data := DEFAULT_DATA\<lparr>chats_config :=
     [-100 \<mapsto> \<lparr>stored_delete_links = Some False, stored_warn_limit = None,
                 stored_ban_on_limit = None, stored_banned_words = None\<rparr>]\<rparr>\<rparr>"

definition bad_update :: update where
  "bad_update = \<lparr>effective_message =
       Some \<lparr>message_id = 1, msg_text = Some ''badword1 http://x.com'', msg_caption = None\<rparr>,
     effective_user = Some (plain_user 7),
     effective_chat = Some \<lparr>chat_id = -100, chat_type = Group\<rparr>\<rparr>"

text \<open>
  The updates are handled one after the other; what one handler of TGBot.py raises is
  logged by the dispatcher and the next update is handled.
\<close>

fun handle_all_polling :: "gateway \<Rightarrow> update list \<Rightarrow> world \<Rightarrow> world" where
  "handle_all_polling gw [] w = w"
| "handle_all_polling gw (upd # upds) w =
     handle_all_polling gw upds (snd (message_handler_polling gw upd w))"

text \<open>An update of the pair whose message qualifies for TGBot.py.\<close>

definition from_pair_polling :: "chat \<Rightarrow> tg_user \<Rightarrow> update \<Rightarrow> bool" where
  "from_pair_polling ch usr upd =
     (effective_chat upd = Some ch \<and> effective_user upd = Some usr \<and>
      (case effective_message upd of
         None \<Rightarrow> False
       | Some m \<Rightarrow> contains_link_or_banned
                     (or_empty (msg_text m) @ '' '' @ or_empty (msg_caption m))))"

section \<open>Properties of the string functions\<close>

lemma starts_with_iff: "starts_with s w \<longleftrightarrow> (\<exists>b. s = w @ b)"
  by (induction s w rule: starts_with.induct) auto

lemma str_in_iff: "str_in w s \<longleftrightarrow> (\<exists>a b. s = a @ w @ b)"
proof (induction s)
  case Nil
  then show ?case by auto
next
  case (Cons c cs)
  show ?case
  proof
    assume "str_in w (c # cs)"
    then consider "starts_with (c # cs) w" | "str_in w cs" by auto
    then show "\<exists>a b. c # cs = a @ w @ b"
    proof cases
      case 1
      then obtain b where "c # cs = w @ b" by (auto simp: starts_with_iff)
      then have "c # cs = [] @ w @ b" by simp
      then show ?thesis by blast
    next
      case 2
      then obtain a b where "cs = a @ w @ b" using Cons.IH by auto
      then have "c # cs = (c # a) @ w @ b" by simp
      then show ?thesis by blast
    qed
  next
    assume "\<exists>a b. c # cs = a @ w @ b"
    then obtain a b where ab: "c # cs = a @ w @ b" by auto
    show "str_in w (c # cs)"
    proof (cases a)
      case Nil
      with ab have "starts_with (c # cs) w" by (simp add: starts_with_iff)
      then show ?thesis by simp
    next
      case (Cons x a')
      with ab have "cs = a' @ w @ b" by simp
      then have "str_in w cs" using Cons.IH by blast
      then show ?thesis by simp
    qed
  qed
qed

lemma first_banned_None:
  "first_banned lowered ws = None \<longleftrightarrow> \<not> (\<exists>w \<in> set ws. w \<noteq> [] \<and> str_in w lowered)"
  by (induction ws) auto

lemma first_banned_Some:
  "first_banned lowered ws = Some w \<Longrightarrow> w \<in> set ws \<and> w \<noteq> [] \<and> str_in w lowered"
  by (induction ws) (auto split: if_splits)

lemma banned_word_match_iff:
  "text_contains_banned_word (Some t) ws \<noteq> None \<longleftrightarrow>
     t \<noteq> [] \<and> (\<exists>w \<in> set ws. w \<noteq> [] \<and> str_in w (lower t))"
  by (simp add: text_contains_banned_word_def first_banned_None del: not_None_eq)

lemma lower_examples:
  "lower ''SPAM now'' = ''spam now''"
  "lower ''buy Spam1'' = ''buy spam1''"
  "lower ''span'' = ''span''"
  "lower ''spam'' = ''spam''"
  by (simp_all add: lower_def lower_char_def is_upper_def)

section \<open>Properties of the regular expressions and of the link classifier\<close>
lemma greedy_zero_nonempty [simp]: "greedy f 0 n st \<noteq> []"
  by (cases n) simp_all

lemma search_append:
  assumes "\<And>q. rmatch ic r (q, s) \<noteq> []"
  shows "search ic r p (a @ s)"
proof (induction a arbitrary: p)
  case Nil
  show ?case using assms [of p] by (cases s) simp_all
next
  case (Cons c a)
  then show ?case by simp
qed

lemma sub_no_match:
  "rmatch ic r (p, c # s) = [] \<Longrightarrow> sub ic r repl p (c # s) = c # sub ic r repl (Some c) s"
  by (subst sub.simps) simp

lemma sub_match:
  "rmatch ic r (p, s) = (q, s') # rest \<Longrightarrow> length s' < length s \<Longrightarrow>
   sub ic r repl p s = repl @ sub ic r repl q s'"
  by (subst sub.simps) simp

lemma lower_consts [simp]:
  "lower_char CHR ''['' = CHR ''[''" "lower_char CHR '']'' = CHR '']''"
  "lower_char CHR ''{'' = CHR ''{''" "lower_char CHR ''}'' = CHR ''}''"
  "lower_char CHR ''('' = CHR ''(''" "lower_char CHR '')'' = CHR '')''"
  "lower_char CHR ''.'' = CHR ''.''" "lower_char CHR ''d'' = CHR ''d''"
  "lower_char CHR ''o'' = CHR ''o''" "lower_char CHR ''t'' = CHR ''t''"
  "lower_char CHR ''a'' = CHR ''a''"
  by (simp_all add: lower_char_def is_upper_def)

lemma dot_match_shape:
  assumes "rmatch True DOT_RE (p, s) = (q, s') # rest"
  shows "\<exists>x m. s = x # m @ s' \<and> (\<forall>c \<in> set m. mid c)"
proof -
  have "(\<exists>x b c. s = x # [b, c] @ s' \<and> mid b \<and> mid c) \<or>
        (\<exists>x b c d e. s = x # [b, c, d, e] @ s' \<and> mid b \<and> mid c \<and> mid d \<and> mid e)"
  proof (cases s)
    case Nil
    with assms show ?thesis by (simp add: DOT_RE_def)
  next
    case s1: (Cons x1 t1)
    show ?thesis
    proof (cases t1)
      case Nil
      with assms s1 show ?thesis by (simp add: DOT_RE_def split: if_splits)
    next
      case s2: (Cons x2 t2)
      show ?thesis
      proof (cases t2)
        case Nil
        with assms s1 s2 show ?thesis by (simp add: DOT_RE_def split: if_splits)
      next
        case s3: (Cons x3 t3)
        show ?thesis
        proof (cases t3)
          case Nil
          with assms s1 s2 s3 show ?thesis by (auto simp: DOT_RE_def mid_def split: if_splits)
        next
          case s4: (Cons x4 t4)
          show ?thesis
          proof (cases t4)
            case Nil
            with assms s1 s2 s3 s4 show ?thesis
              by (auto simp: DOT_RE_def mid_def split: if_splits)
          next
            case s5: (Cons x5 t5)
            with assms s1 s2 s3 s4 show ?thesis
              by (auto simp: DOT_RE_def mid_def split: if_splits)
          qed
        qed
      qed
    qed
  qed
  then show ?thesis by fastforce
qed

lemma at_match_shape:
  assumes "rmatch True AT_RE (p, s) = (q, s') # rest"
  shows "\<exists>x m. s = x # m @ s' \<and> (\<forall>c \<in> set m. mid c)"
proof -
  have "\<exists>x b c d. s = x # [b, c, d] @ s' \<and> mid b \<and> mid c \<and> mid d"
  proof (cases s)
    case Nil
    with assms show ?thesis by (simp add: AT_RE_def)
  next
    case s1: (Cons x1 t1)
    show ?thesis
    proof (cases t1)
      case Nil
      with assms s1 show ?thesis by (simp add: AT_RE_def split: if_splits)
    next
      case s2: (Cons x2 t2)
      show ?thesis
      proof (cases t2)
        case Nil
        with assms s1 s2 show ?thesis by (simp add: AT_RE_def split: if_splits)
      next
        case s3: (Cons x3 t3)
        show ?thesis
        proof (cases t3)
          case Nil
          with assms s1 s2 s3 show ?thesis by (simp add: AT_RE_def split: if_splits)
        next
          case s4: (Cons x4 t4)
          with assms s1 s2 s3 show ?thesis
            by (auto simp: AT_RE_def mid_def split: if_splits)
        qed
      qed
    qed
  qed
  then show ?thesis by fastforce
qed

text \<open>
  A pattern whose matches hold only \<open>mid\<close> characters behind their first one cannot
  reach into a key that starts with another character: the scan of \<open>sub\<close> arrives at
  the start of the key.
\<close>

lemma sub_reaches_key:
  assumes shape: "\<And>p s q s' rest. rmatch ic r (p, s) = (q, s') # rest \<Longrightarrow>
             \<exists>x m. s = x # m @ s' \<and> (\<forall>c \<in> set m. mid c)"
      and key: "\<not> mid k"
  shows "\<exists>a q. sub ic r repl p (pre @ k # post) = a @ sub ic r repl q (k # post)"
proof (induction "length pre" arbitrary: pre p rule: less_induct)
  case less
  show ?case
  proof (cases pre)
    case Nil
    then have "sub ic r repl p (pre @ k # post) = [] @ sub ic r repl p (k # post)" by simp
    then show ?thesis by blast
  next
    case (Cons c pre')
    show ?thesis
    proof (cases "rmatch ic r (p, pre @ k # post)")
      case Nil
      with Cons have "sub ic r repl p (pre @ k # post) = c # sub ic r repl (Some c) (pre' @ k # post)"
        by (simp add: sub_no_match)
      moreover from less [of pre' "Some c"] Cons
      obtain a q where "sub ic r repl (Some c) (pre' @ k # post) = a @ sub ic r repl q (k # post)"
        by auto
      ultimately have "sub ic r repl p (pre @ k # post) = (c # a) @ sub ic r repl q (k # post)"
        by simp
      then show ?thesis by blast
    next
      case (Cons qs rest)
      obtain q s' where qs: "qs = (q, s')" by (cases qs)
      with Cons have m: "rmatch ic r (p, pre @ k # post) = (q, s') # rest" by simp
      from shape [OF m] obtain x m where xm: "pre @ k # post = x # m @ s'" "\<forall>c \<in> set m. mid c"
        by blast
      from xm(1) \<open>pre = c # pre'\<close> have eq: "pre' @ k # post = m @ s'" by simp
      then obtain us where "pre' = m @ us \<and> us @ k # post = s' \<or> pre' @ us = m \<and> k # post = us @ s'"
        by (auto simp: append_eq_append_conv2)
      then consider (inside) us where "pre' = m @ us" "s' = us @ k # post"
        | (across) us where "pre' @ us = m" "k # post = us @ s'" "us \<noteq> []"
        by (cases "us = []") auto
      then show ?thesis
      proof cases
        case inside
        with \<open>pre = c # pre'\<close> have len: "length us < length pre" by simp
        from inside have "length s' < length (pre @ k # post)"
          using \<open>pre = c # pre'\<close> by simp
        with m have "sub ic r repl p (pre @ k # post) = repl @ sub ic r repl q s'"
          by (rule sub_match)
        moreover from less [OF len, of q] inside(2)
        obtain a q' where "sub ic r repl q s' = a @ sub ic r repl q' (k # post)" by auto
        ultimately have "sub ic r repl p (pre @ k # post) = (repl @ a) @ sub ic r repl q' (k # post)"
          by simp
        then show ?thesis by blast
      next
        case across
        then obtain us' where "us = k # us'" by (cases us) auto
        with across(1) have "k \<in> set m" by auto
        with xm(2) key show ?thesis by blast
      qed
    qed
  qed
qed

lemma not_mid_consts: "\<not> mid CHR ''h''" "\<not> mid CHR ''e''"
  by (simp_all add: mid_def lower_char_def is_upper_def is_space_def)

lemma space_consts [simp]:
  "is_space CHR '' ''" "\<not> is_space CHR ''h''" "\<not> is_space CHR ''t''" "\<not> is_space CHR ''p''"
  "\<not> is_space CHR '':''" "\<not> is_space CHR ''/''" "\<not> is_space CHR ''e''" "\<not> is_space CHR ''.''"
  "\<not> is_space CHR ''c''" "\<not> is_space CHR ''o''" "\<not> is_space CHR ''m''" "\<not> is_space CHR ''n''"
  "\<not> is_space CHR ''[''"  "\<not> is_space CHR '']''"
  by (simp_all add: is_space_def)

lemma lower_consts2 [simp]:
  "lower_char CHR ''h'' = CHR ''h''" "lower_char CHR ''p'' = CHR ''p''"
  "lower_char CHR '':'' = CHR '':''" "lower_char CHR ''/'' = CHR ''/''"
  "lower_char CHR ''e'' = CHR ''e''" "lower_char CHR ''c'' = CHR ''c''"
  "lower_char CHR ''m'' = CHR ''m''" "lower_char CHR ''n'' = CHR ''n''"
  "lower_char CHR '' '' = CHR '' ''" "lower_char CHR ''s'' = CHR ''s''"
  "lower_char CHR ''w'' = CHR ''w''"
  by (simp_all add: lower_char_def is_upper_def)

lemma dot_no_start:
  "\<not> is_space c \<Longrightarrow> lower_char c \<notin> set ''[{('' \<Longrightarrow> rmatch True DOT_RE (p, c # s) = []"
  by (simp add: DOT_RE_def)

lemma at_no_start:
  "\<not> is_space c \<Longrightarrow> lower_char c \<notin> set ''[('' \<Longrightarrow> rmatch True AT_RE (p, c # s) = []"
  by (simp add: AT_RE_def)

lemma space_n_no_match:
  "rmatch True DOT_RE (p, CHR '' '' # CHR ''n'' # s) = []"
  "rmatch True AT_RE (p, CHR '' '' # CHR ''n'' # s) = []"
  by (simp_all add: DOT_RE_def AT_RE_def)

lemma dot_keeps_http:
  "sub True DOT_RE ''.'' p (''http://e'' @ post)
     = ''http://e'' @ sub True DOT_RE ''.'' (Some CHR ''e'') post"
  by (simp add: sub_no_match dot_no_start)

lemma at_keeps_http:
  "sub True AT_RE ''@'' p (''http://e'' @ post)
     = ''http://e'' @ sub True AT_RE ''@'' (Some CHR ''e'') post"
  by (simp add: sub_no_match at_no_start)

lemma dot_rewrites_obfuscated:
  "sub True DOT_RE ''.'' p (''e[.]com n'' @ post)
     = ''e.com n'' @ sub True DOT_RE ''.'' (Some CHR ''n'') post"
proof -
  have m: "rmatch True DOT_RE (Some CHR ''e'', ''[.]com n'' @ post)
      = [(Some CHR '']'', ''com n'' @ post)]"
    by (simp add: DOT_RE_def)
  have "sub True DOT_RE ''.'' (Some CHR ''e'') (''[.]com n'' @ post)
      = ''.'' @ sub True DOT_RE ''.'' (Some CHR '']'') (''com n'' @ post)"
    using sub_match [OF m] by simp
  then show ?thesis by (simp add: sub_no_match dot_no_start space_n_no_match)
qed

lemma at_keeps_dotcom:
  "sub True AT_RE ''@'' p (''e.com n'' @ post)
     = ''e.com n'' @ sub True AT_RE ''@'' (Some CHR ''n'') post"
  by (simp add: sub_no_match at_no_start space_n_no_match)

lemma normalize_keeps_http:
  "\<exists>a b. normalize_obfuscated (pre @ ''http://e'' @ post) = a @ ''http://e'' @ b"
proof -
  from sub_reaches_key [of True DOT_RE "CHR ''h''" "''.''" None pre "''ttp://e'' @ post"]
  obtain a q where "sub True DOT_RE ''.'' None (pre @ ''http://e'' @ post)
      = a @ sub True DOT_RE ''.'' q (''http://e'' @ post)"
    using dot_match_shape not_mid_consts by auto
  then have 1: "sub True DOT_RE ''.'' None (pre @ ''http://e'' @ post)
      = a @ ''http://e'' @ sub True DOT_RE ''.'' (Some CHR ''e'') post"
    by (simp only: dot_keeps_http)
  from sub_reaches_key [of True AT_RE "CHR ''h''" "''@''" None a
      "''ttp://e'' @ sub True DOT_RE ''.'' (Some CHR ''e'') post"]
  obtain a' q' where "sub True AT_RE ''@'' None (a @ ''http://e'' @ sub True DOT_RE ''.'' (Some CHR ''e'') post)
      = a' @ sub True AT_RE ''@'' q' (''http://e'' @ sub True DOT_RE ''.'' (Some CHR ''e'') post)"
    using at_match_shape not_mid_consts by auto
  then have 2: "sub True AT_RE ''@'' None (a @ ''http://e'' @ sub True DOT_RE ''.'' (Some CHR ''e'') post)
      = a' @ ''http://e'' @ sub True AT_RE ''@'' (Some CHR ''e'') (sub True DOT_RE ''.'' (Some CHR ''e'') post)"
    by (simp only: at_keeps_http)
  from 1 2 have "normalize_obfuscated (pre @ ''http://e'' @ post)
      = a' @ ''http://e'' @ sub True AT_RE ''@'' (Some CHR ''e'') (sub True DOT_RE ''.'' (Some CHR ''e'') post)"
    by (simp add: normalize_obfuscated_def)
  then show ?thesis by blast
qed

lemma normalize_rewrites_obfuscated:
  "\<exists>a b. normalize_obfuscated (pre @ ''e[.]com n'' @ post) = a @ ''e.com n'' @ b"
proof -
  from sub_reaches_key [of True DOT_RE "CHR ''e''" "''.''" None pre "''[.]com n'' @ post"]
  obtain a q where "sub True DOT_RE ''.'' None (pre @ ''e[.]com n'' @ post)
      = a @ sub True DOT_RE ''.'' q (''e[.]com n'' @ post)"
    using dot_match_shape not_mid_consts by auto
  then have 1: "sub True DOT_RE ''.'' None (pre @ ''e[.]com n'' @ post)
      = a @ ''e.com n'' @ sub True DOT_RE ''.'' (Some CHR ''n'') post"
    by (simp only: dot_rewrites_obfuscated)
  from sub_reaches_key [of True AT_RE "CHR ''e''" "''@''" None a
      "''.com n'' @ sub True DOT_RE ''.'' (Some CHR ''n'') post"]
  obtain a' q' where "sub True AT_RE ''@'' None (a @ ''e.com n'' @ sub True DOT_RE ''.'' (Some CHR ''n'') post)
      = a' @ sub True AT_RE ''@'' q' (''e.com n'' @ sub True DOT_RE ''.'' (Some CHR ''n'') post)"
    using at_match_shape not_mid_consts by auto
  then have 2: "sub True AT_RE ''@'' None (a @ ''e.com n'' @ sub True DOT_RE ''.'' (Some CHR ''n'') post)
      = a' @ ''e.com n'' @ sub True AT_RE ''@'' (Some CHR ''n'') (sub True DOT_RE ''.'' (Some CHR ''n'') post)"
    by (simp only: at_keeps_dotcom)
  from 1 2 have "normalize_obfuscated (pre @ ''e[.]com n'' @ post)
      = a' @ ''e.com n'' @ sub True AT_RE ''@'' (Some CHR ''n'') (sub True DOT_RE ''.'' (Some CHR ''n'') post)"
    by (simp add: normalize_obfuscated_def)
  then show ?thesis by blast
qed

lemma word_consts [simp]:
  "is_word CHR ''e''" "is_word CHR ''m''" "\<not> is_word CHR '' ''" "\<not> is_word CHR ''.''"
  by (simp_all add: is_word_def)

lemma greedy_zero_ex [simp]: "\<exists>a b. (a, b) \<in> set (greedy f 0 n st)"
proof -
  have m: "st \<in> set (greedy f 0 n st)" by (cases n) simp_all
  obtain a b where "st = (a, b)" by (cases st)
  with m have "(a, b) \<in> set (greedy f 0 n (a, b))" by simp
  with \<open>st = (a, b)\<close> show ?thesis by blast
qed

lemma url_matches_http: "rmatch True URL_RE (q, ''http://e'' @ b) \<noteq> []"
proof -
  have "rmatch True (seqs [lit ''http'', Opt (Chr CHR ''s''), lit ''://'', Plus (Cls url_chars)])
          (q, ''http://e'' @ b) \<noteq> []"
    by (simp add: Opt_def Plus_def url_chars_def)
  then show ?thesis by (simp add: URL_RE_def)
qed

lemma url_matches_dotcom: "rmatch True URL_RE (q, ''e.com n'' @ b) \<noteq> []"
proof -
  have "rmatch True (seqs [Plus (Cls host_chars), Chr CHR ''.'',
           alts (map lit [''com'', ''net'', ''org'', ''in'', ''io'', ''info'', ''biz'',
                          ''co'', ''me'', ''xyz'', ''tk'']), WordB]) (q, ''e.com n'' @ b)
        = [(Some CHR ''m'', '' n'' @ b)]"
    by (simp add: Plus_def host_chars_def word_at_def next_char_def is_word_def
        lower_char_def is_upper_def)
  then show ?thesis by (simp add: URL_RE_def)
qed

lemma link_pattern_matches_http: "rmatch True LINK_PATTERN (q, ''http://'' @ b) \<noteq> []"
  by (simp add: LINK_PATTERN_def Opt_def)

lemma link_http_general:
  "text_contains_link (pre @ ''visit http://example.com now'' @ post)"
proof -
  have split: "pre @ ''visit http://example.com now'' @ post
      = (pre @ ''visit '') @ ''http://e'' @ (''xample.com now'' @ post)" by simp
  obtain a b where n: "normalize_obfuscated (pre @ ''visit http://example.com now'' @ post)
      = a @ ''http://e'' @ b"
    unfolding split using normalize_keeps_http by blast
  have "search True URL_RE None (a @ ''http://e'' @ b)"
    by (rule search_append) (rule url_matches_http)
  with n show ?thesis by (simp add: text_contains_link_def)
qed

lemma link_obfuscated_general:
  "text_contains_link (pre @ ''visit example[.]com now'' @ post)"
proof -
  have split: "pre @ ''visit example[.]com now'' @ post
      = (pre @ ''visit exampl'') @ ''e[.]com n'' @ (''ow'' @ post)" by simp
  obtain a b where n: "normalize_obfuscated (pre @ ''visit example[.]com now'' @ post)
      = a @ ''e.com n'' @ b"
    unfolding split using normalize_rewrites_obfuscated by blast
  have "search True URL_RE None (a @ ''e.com n'' @ b)"
    by (rule search_append) (rule url_matches_dotcom)
  with n show ?thesis by (simp add: text_contains_link_def)
qed

lemma polling_link_http_general:
  "contains_link_or_banned (pre @ ''visit http://example.com now'' @ post)"
proof -
  have split: "pre @ ''visit http://example.com now'' @ post
      = (pre @ ''visit '') @ ''http://'' @ (''example.com now'' @ post)" by simp
  have "search True LINK_PATTERN None ((pre @ ''visit '') @ ''http://'' @ (''example.com now'' @ post))"
    by (rule search_append) (rule link_pattern_matches_http)
  then show ?thesis unfolding split [symmetric] by (simp add: contains_link_or_banned_def)
qed

lemma normalize_example:
  "normalize_obfuscated ''a[.]b(dot)c{.}d DOT e[at]f(AT)g at h'' = ''a.b.c.d.e@f@g@h''"
  by code_simp

lemma link_negative_just_chatting: "\<not> text_contains_link ''just chatting''"
  by code_simp

lemma polling_negative_just_chatting: "\<not> contains_link_or_banned ''just chatting''"
  by code_simp

section \<open>Claim C5\<close>

text \<open>
  C5, as amended. In the webhook variant (TGBot2.py) the link classifier first replaces
  the obfuscated separators by their literal characters (for example
  \<open>a[.]b(dot)c{.}d DOT e[at]f(AT)g at h\<close> becomes \<open>a.b.c.d.e@f@g@h\<close>) and then
  classifies every text that contains \<open>visit http://example.com now\<close> and every text
  that contains \<open>visit example[.]com now\<close> as link-positive; \<open>just chatting\<close> is
  link-negative, and word-negative for the empty set of banned words. The polling
  variant (TGBot.py) has no normalisation: it classifies every text that contains
  \<open>visit http://example.com now\<close> as positive and \<open>just chatting\<close> as negative.
\<close>

theorem link_classifier_examples:
  "normalize_obfuscated ''a[.]b(dot)c{.}d DOT e[at]f(AT)g at h'' = ''a.b.c.d.e@f@g@h''
   \<and> text_contains_link (pre @ ''visit http://example.com now'' @ post)
   \<and> text_contains_link (pre @ ''visit example[.]com now'' @ post)
   \<and> \<not> text_contains_link ''just chatting''
   \<and> text_contains_banned_word (Some ''just chatting'') [] = None
   \<and> contains_link_or_banned (pre @ ''visit http://example.com now'' @ post)
   \<and> \<not> contains_link_or_banned ''just chatting''"
  using normalize_example link_http_general link_obfuscated_general
    link_negative_just_chatting polling_link_http_general polling_negative_just_chatting
  by (simp add: text_contains_banned_word_def)

text \<open>
  The claim as stated fails for the classifier of TGBot.py, which does not normalise:
  \<open>visit example[.]com now\<close> holds no link for it (and no banned word).
\<close>

theorem polling_misses_obfuscated_link:
  "\<not> contains_link_or_banned ''visit example[.]com now''"
  by code_simp

section \<open>Properties of persistence and of the ban ledger\<close>

lemma load_data_falls_back:
  "(disk w = Absent \<longrightarrow> load_data w = (DEFAULT_DATA, save_data DEFAULT_DATA w))
   \<and> (disk w = Absent \<and> writable w \<longrightarrow> disk (snd (load_data w)) = Object (to_json DEFAULT_DATA))
   \<and> (disk w = Unreadable \<or> disk w = Malformed \<longrightarrow> load_data w = (DEFAULT_DATA, w))"
  by (auto simp: load_data_def save_data_def)

lemma startup_falls_back:
  "disk w = Unreadable \<or> disk w = Malformed \<Longrightarrow> data (startup w) = DEFAULT_DATA"
  by (auto simp: startup_def load_data_def)

lemma call_data [simp]: "data (snd (call gw a w)) = data w"
  by (simp add: call_def Let_def)

lemma reply_data [simp]: "data (snd (reply gw n w)) = data w"
  by (simp add: reply_def call_def Let_def split: prod.splits)

lemma cmd_unban_keeps_data: "data (snd (cmd_unban gw A cmd w)) = data w"
  by (simp add: cmd_unban_def call_def reply_def Let_def split: option.splits prod.splits)

lemma py_int_42: "py_int ''42'' = Some 42" "isdigit ''42''"
  by (simp_all add: py_int_def isdigit_def is_digit_def isdigit_char_def digit_value_def)

lemma unban_user_record_clears:
  assumes "distinct (case banned (data w) c of None \<Rightarrow> [] | Some l \<Rightarrow> l)"
  shows "\<not> is_user_banned (data (snd (unban_user_record c u w))) c u"
  using assms
  by (auto simp: unban_user_record_def is_user_banned_def save_data_polling_def Let_def
      split: option.splits)

lemma unban_user_record_noop:
  "\<not> is_user_banned (data w) c u \<Longrightarrow> unban_user_record c u w = (Returned (), w)"
  by (auto simp: unban_user_record_def is_user_banned_def split: option.splits)

section \<open>Properties of the broadcast\<close>

lemma attempt_all_effect:
  "attempt_all gw mk rs (s, f, w) = (s', f', w') \<Longrightarrow>
   \<exists>cs. calls w' = calls w @ cs \<and> map fst cs = map mk rs
        \<and> s' = s + successes cs \<and> f' = f + failures cs
        \<and> data w' = data w \<and> disk w' = disk w \<and> writable w' = writable w"
proof (induction rs arbitrary: s f w)
  case Nil
  then show ?case by (simp add: successes_def failures_def)
next
  case (Cons r rs)
  let ?ok = "gw (length (calls w)) (mk r)"
  let ?w1 = "w\<lparr>calls := calls w @ [(mk r, ?ok)]\<rparr>"
  from Cons.prems have
    "attempt_all gw mk rs (if ?ok then s + 1 else s, if ?ok then f else f + 1, ?w1) = (s', f', w')"
    by (simp add: call_def Let_def split: if_splits)
  from Cons.IH [OF this] obtain cs where cs:
    "calls w' = calls ?w1 @ cs" "map fst cs = map mk rs"
    "s' = (if ?ok then s + 1 else s) + successes cs"
    "f' = (if ?ok then f else f + 1) + failures cs"
    "data w' = data ?w1" "disk w' = disk ?w1" "writable w' = writable ?w1"
    by blast
  let ?cs = "(mk r, ?ok) # cs"
  have "calls w' = calls w @ ?cs" using cs(1) by simp
  moreover have "map fst ?cs = map mk (r # rs)" using cs(2) by simp
  moreover have "s' = s + successes ?cs" using cs(3) by (simp add: successes_def)
  moreover have "f' = f + failures ?cs" using cs(4) by (simp add: failures_def)
  moreover have "data w' = data w" "disk w' = disk w" "writable w' = writable w"
    using cs(5-7) by simp_all
  ultimately show ?case by blast
qed

lemma successes_failures: "successes cs + failures cs = int (length cs)"
  by (induction cs) (auto simp: successes_def failures_def)

lemma successes_append: "successes (a @ b) = successes a + successes b"
  by (simp add: successes_def)

lemma failures_append: "failures (a @ b) = failures a + failures b"
  by (simp add: failures_def)

lemma cmd_broadcast_attempts_all:
  assumes admin: "is_admin A (user_id (sender cmd))"
  shows "\<exists>cs ok. calls (snd (cmd_broadcast gw A cmd w))
           = calls w @ cs @ [(ReplyText (BroadcastReport (successes cs) (failures cs)), ok)]
         \<and> map fst cs = map (broadcast_action cmd) (recipients (data w))
         \<and> successes cs + failures cs = int (length (recipients (data w)))"
proof -
  define mk where "mk = broadcast_action cmd"
  obtain s1 f1 w1 where a1: "attempt_all gw mk (map fst (users (data w))) (0, 0, w) = (s1, f1, w1)"
    by (metis prod_cases3)
  obtain s2 f2 w2 where a2: "attempt_all gw mk (channels (data w)) (s1, f1, w1) = (s2, f2, w2)"
    by (metis prod_cases3)
  from attempt_all_effect [OF a1] obtain cs1 where cs1:
    "calls w1 = calls w @ cs1" "map fst cs1 = map mk (map fst (users (data w)))"
    "s1 = successes cs1" "f1 = failures cs1" by auto
  from attempt_all_effect [OF a2] obtain cs2 where cs2:
    "calls w2 = calls w1 @ cs2" "map fst cs2 = map mk (channels (data w))"
    "s2 = s1 + successes cs2" "f2 = f1 + failures cs2" by auto
  have mk_fwd: "mk = (\<lambda>rid. ForwardMessage rid (chat_id (cmd_chat cmd)) (message_id m))"
    if "reply_to_message cmd = Some m" "args cmd = []" for m
    using that by (simp add: mk_def broadcast_action_def fun_eq_iff)
  have mk_txt: "mk = (\<lambda>rid. SendMessage rid (Text (join '' '' (args cmd))))"
    if "reply_to_message cmd = None \<or> args cmd \<noteq> []"
    using that by (auto simp: mk_def broadcast_action_def fun_eq_iff split: option.splits list.splits)
  have run: "cmd_broadcast gw A cmd w = reply gw (BroadcastReport s2 f2) w2"
  proof (cases "reply_to_message cmd")
    case None
    with mk_txt have "mk = (\<lambda>rid. SendMessage rid (Text (join '' '' (args cmd))))" by simp
    with a1 a2 None admin show ?thesis by (simp add: cmd_broadcast_def Let_def)
  next
    case (Some m)
    show ?thesis
    proof (cases "args cmd")
      case Nil
      with Some mk_fwd have "mk = (\<lambda>rid. ForwardMessage rid (chat_id (cmd_chat cmd)) (message_id m))"
        by simp
      with a1 a2 Some Nil admin show ?thesis by (simp add: cmd_broadcast_def Let_def)
    next
      case (Cons x xs)
      with mk_txt have "mk = (\<lambda>rid. SendMessage rid (Text (join '' '' (args cmd))))" by simp
      with a1 a2 Some Cons admin show ?thesis by (simp add: cmd_broadcast_def Let_def)
    qed
  qed
  let ?cs = "cs1 @ cs2"
  have s2: "s2 = successes ?cs" and f2: "f2 = failures ?cs"
    using cs1 cs2 by (simp_all add: successes_append failures_append)
  obtain ok where "calls (snd (reply gw (BroadcastReport s2 f2) w2))
      = calls w2 @ [(ReplyText (BroadcastReport s2 f2), ok)]"
    by (simp add: reply_def call_def Let_def)
  with run cs1(1) cs2(1) s2 f2 have
    "calls (snd (cmd_broadcast gw A cmd w))
       = calls w @ ?cs @ [(ReplyText (BroadcastReport (successes ?cs) (failures ?cs)), ok)]"
    by simp
  moreover have "map fst ?cs = map (broadcast_action cmd) (recipients (data w))"
    using cs1(2) cs2(2) by (simp add: recipients_def mk_def)
  moreover have "successes ?cs + failures ?cs = int (length (recipients (data w)))"
    using successes_failures [of ?cs] arg_cong [OF calculation(2), of length] by simp
  ultimately show ?thesis by blast
qed

lemma broadcast_five_two_fail:
  "calls (snd (cmd_broadcast gw_fail_2_4 [1] (text_cmd 1) five_users)) =
     [(SendMessage 1 (Text ''hi''), True), (SendMessage 2 (Text ''hi''), False),
      (SendMessage 3 (Text ''hi''), True), (SendMessage 4 (Text ''hi''), False),
      (SendMessage 5 (Text ''hi''), True), (ReplyText (BroadcastReport 3 2), True)]"
  by (simp add: cmd_broadcast_def five_users_def fresh_world_def DEFAULT_DATA_def text_cmd_def
      plain_user_def is_admin_def call_def reply_def gw_fail_2_4_def Let_def)

section \<open>Properties of the policy store\<close>

lemma set_set_union [simp]: "set (set_union a b) = set a \<union> set b"
  by (auto simp: set_union_def)

lemma set_set_of_list [simp]: "set (set_of_list xs) = set xs"
  by (simp add: set_of_list_def)

lemma set_set_add [simp]: "set (set_add x a) = insert x (set a)"
  by (auto simp: set_add_def)

lemma set_set_discard [simp]: "set (set_discard x a) = set a - {x}"
  by (auto simp: set_discard_def)

lemma get_chat_config_unset:
  "chats_config d c = None \<Longrightarrow>
   get_chat_config d c = \<lparr>delete_links = True, warn_limit = 3, ban_on_limit = True,
                          banned_words = GLOBAL_BANNED_WORDS\<rparr>"
  by (simp add: get_chat_config_def empty_conf_def delete_links_default_def
      warn_limit_default_def ban_on_limit_default_def set_union_def set_of_list_def)

lemma global_words_effective:
  "set GLOBAL_BANNED_WORDS \<subseteq> set (banned_words (get_chat_config d c))"
  by (simp add: get_chat_config_def Let_def)

lemma save_data_data [simp]: "data (save_data obj w) = data w"
  by (simp add: save_data_def)

lemma get_after_set:
  "get_chat_config (data (set_chat_config c conf w)) c' =
     (if c' = c
      then conf\<lparr>banned_words := set_union (set_of_list (banned_words conf)) GLOBAL_BANNED_WORDS\<rparr>
      else get_chat_config (data w) c')"
  by (simp add: set_chat_config_def get_chat_config_def Let_def)

lemma apply_token_fields:
  assumes "apply_token t conf = Returned conf'"
  shows "(\<not> starts_with t ''delete_links='' \<longrightarrow> delete_links conf' = delete_links conf)"
    and "(\<not> starts_with t ''warn_limit='' \<longrightarrow> warn_limit conf' = warn_limit conf)"
    and "(\<not> starts_with t ''ban_on_limit='' \<longrightarrow> ban_on_limit conf' = ban_on_limit conf)"
    and "(\<not> starts_with t ''add_banned='' \<and> \<not> starts_with t ''remove_banned=''
           \<longrightarrow> banned_words conf' = banned_words conf)"
  using assms by (auto simp: apply_token_def split: if_splits option.splits)

lemma apply_tokens_fields:
  assumes "apply_tokens ts conf = Returned conf'"
  shows "((\<forall>t \<in> set ts. \<not> starts_with t ''delete_links='') \<longrightarrow> delete_links conf' = delete_links conf)
    \<and> ((\<forall>t \<in> set ts. \<not> starts_with t ''warn_limit='') \<longrightarrow> warn_limit conf' = warn_limit conf)
    \<and> ((\<forall>t \<in> set ts. \<not> starts_with t ''ban_on_limit='') \<longrightarrow> ban_on_limit conf' = ban_on_limit conf)
    \<and> ((\<forall>t \<in> set ts. \<not> starts_with t ''add_banned='' \<and> \<not> starts_with t ''remove_banned='')
           \<longrightarrow> banned_words conf' = banned_words conf)"
  using assms
proof (induction ts arbitrary: conf)
  case Nil
  then show ?case by simp
next
  case (Cons t ts)
  from Cons.prems obtain c1 where c1: "apply_token t conf = Returned c1"
    "apply_tokens ts c1 = Returned conf'"
    by (auto split: outcome.splits)
  from Cons.IH [OF c1(2)] apply_token_fields [OF c1(1)] show ?case by auto
qed

text \<open>What \<open>cmd_setconfig\<close> does to the state, in each of its branches.\<close>

lemma cmd_setconfig_cases:
  "data (snd (cmd_setconfig gw A cmd w)) = data w \<or>
   (\<exists>conf. apply_tokens (args cmd) (get_chat_config (data w) (chat_id (cmd_chat cmd))) = Returned conf
      \<and> data (snd (cmd_setconfig gw A cmd w)) = data (set_chat_config (chat_id (cmd_chat cmd)) conf w))"
  by (auto simp: cmd_setconfig_def Let_def split: outcome.splits)

lemma cmd_setconfig_partial:
  fixes gw A cmd w c
  defines "before \<equiv> get_chat_config (data w) c"
      and "after \<equiv> get_chat_config (data (snd (cmd_setconfig gw A cmd w))) c"
  shows "((\<forall>t \<in> set (args cmd). \<not> starts_with t ''delete_links='') \<longrightarrow> delete_links after = delete_links before)
    \<and> ((\<forall>t \<in> set (args cmd). \<not> starts_with t ''warn_limit='') \<longrightarrow> warn_limit after = warn_limit before)
    \<and> ((\<forall>t \<in> set (args cmd). \<not> starts_with t ''ban_on_limit='') \<longrightarrow> ban_on_limit after = ban_on_limit before)
    \<and> ((\<forall>t \<in> set (args cmd). \<not> starts_with t ''add_banned='' \<and> \<not> starts_with t ''remove_banned='')
           \<longrightarrow> set (banned_words after) = set (banned_words before))
    \<and> (c \<noteq> chat_id (cmd_chat cmd) \<longrightarrow> after = before)"
proof -
  consider (same) "data (snd (cmd_setconfig gw A cmd w)) = data w"
    | (set) conf where
        "apply_tokens (args cmd) (get_chat_config (data w) (chat_id (cmd_chat cmd))) = Returned conf"
        "data (snd (cmd_setconfig gw A cmd w)) = data (set_chat_config (chat_id (cmd_chat cmd)) conf w)"
    using cmd_setconfig_cases by blast
  then show ?thesis
  proof cases
    case same
    then show ?thesis by (simp add: before_def after_def)
  next
    case set
    show ?thesis
    proof (cases "c = chat_id (cmd_chat cmd)")
      case False
      with set(2) show ?thesis by (simp add: before_def after_def get_after_set)
    next
      case True
      have sub: "set GLOBAL_BANNED_WORDS \<subseteq> set (banned_words before)"
        unfolding before_def by (rule global_words_effective)
      from set(2) True have after: "after =
          conf\<lparr>banned_words := set_union (set_of_list (banned_words conf)) GLOBAL_BANNED_WORDS\<rparr>"
        by (simp add: after_def get_after_set)
      from apply_tokens_fields [OF set(1)] True after sub show ?thesis
        by (auto simp: before_def)
    qed
  qed
qed

lemma cmd_setconfig_runs:
  assumes "ts \<noteq> []" "apply_tokens ts (get_chat_config (data w) (-100)) = Returned conf"
  shows "data (snd (cmd_setconfig gw [1] (setconfig_cmd ts) w)) = data (set_chat_config (-100) conf w)"
  using assms
  by (simp add: cmd_setconfig_def setconfig_cmd_def plain_user_def is_admin_def Let_def)

lemma add_banned_foo:
  assumes "chats_config (data w) (-100) = None"
  shows "set (banned_words (get_chat_config
           (data (snd (cmd_setconfig gw [1] (setconfig_cmd [''add_banned=foo'']) w))) (-100)))
         = insert ''foo'' (set GLOBAL_BANNED_WORDS)"
proof -
  have tok: "after_eq ''add_banned=foo'' = ''foo''" "strip ''foo'' = ''foo''" "lower ''foo'' = ''foo''"
    by (simp_all add: after_eq_def strip_def lower_def lower_char_def is_upper_def is_space_def)
  have "apply_tokens [''add_banned=foo''] (get_chat_config (data w) (-100))
      = Returned ((get_chat_config (data w) (-100))\<lparr>banned_words :=
          set_add ''foo'' (banned_words (get_chat_config (data w) (-100)))\<rparr>)"
    by (simp add: apply_token_def tok)
  from cmd_setconfig_runs [OF _ this] assms show ?thesis
    by (simp add: get_after_set get_chat_config_unset)
qed

lemma add_banned_empty:
  "[] \<in> set (banned_words (get_chat_config
           (data (snd (cmd_setconfig gw [1] (setconfig_cmd [''add_banned='']) w))) (-100)))"
proof -
  have tok: "after_eq ''add_banned='' = []" "strip [] = []" "lower [] = []"
    by (simp_all add: after_eq_def strip_def lower_def)
  have "apply_tokens [''add_banned=''] (get_chat_config (data w) (-100))
      = Returned ((get_chat_config (data w) (-100))\<lparr>banned_words :=
          set_add [] (banned_words (get_chat_config (data w) (-100)))\<rparr>)"
    by (simp add: apply_token_def tok)
  from cmd_setconfig_runs [OF _ this] show ?thesis
    by (simp add: get_after_set)
qed

lemma remove_global_word:
  "stored_banned_words (the (chats_config
       (data (snd (cmd_setconfig gw_ok [1] (setconfig_cmd [''remove_banned=badword1''])
          (fresh_world Absent)))) (-100)))
     = Some [''badword2'', ''somevulgarword'']
   \<and> banned_words (get_chat_config
       (data (snd (cmd_setconfig gw_ok [1] (setconfig_cmd [''remove_banned=badword1''])
          (fresh_world Absent)))) (-100))
     = [''badword2'', ''somevulgarword'', ''badword1'']"
proof -
  have tok: "after_eq ''remove_banned=badword1'' = ''badword1''" "strip ''badword1'' = ''badword1''"
    "lower ''badword1'' = ''badword1''"
    by (simp_all add: after_eq_def strip_def lower_def lower_char_def is_upper_def is_space_def)
  have unset: "chats_config (data (fresh_world Absent)) (-100) = None"
    by (simp add: fresh_world_def DEFAULT_DATA_def)
  have "apply_tokens [''remove_banned=badword1''] (get_chat_config (data (fresh_world Absent)) (-100))
      = Returned \<lparr>delete_links = True, warn_limit = 3, ban_on_limit = True,
                  banned_words = [''badword2'', ''somevulgarword'']\<rparr>"
    by (simp add: apply_token_def tok get_chat_config_unset [OF unset] set_discard_def
        GLOBAL_BANNED_WORDS_def)
  from cmd_setconfig_runs [OF _ this, of gw_ok] have d:
    "data (snd (cmd_setconfig gw_ok [1] (setconfig_cmd [''remove_banned=badword1''])
        (fresh_world Absent)))
     = data (set_chat_config (-100) \<lparr>delete_links = True, warn_limit = 3, ban_on_limit = True,
                  banned_words = [''badword2'', ''somevulgarword'']\<rparr> (fresh_world Absent))"
    by simp
  have stored: "stored_banned_words (the (chats_config
       (data (snd (cmd_setconfig gw_ok [1] (setconfig_cmd [''remove_banned=badword1''])
          (fresh_world Absent)))) (-100))) = Some [''badword2'', ''somevulgarword'']"
    unfolding d by (simp add: set_chat_config_def Let_def)
  have read: "banned_words (get_chat_config
       (data (snd (cmd_setconfig gw_ok [1] (setconfig_cmd [''remove_banned=badword1''])
          (fresh_world Absent)))) (-100)) = [''badword2'', ''somevulgarword'', ''badword1'']"
    unfolding d by (simp add: get_after_set set_union_def set_of_list_def GLOBAL_BANNED_WORDS_def)
  from stored read show ?thesis by simp
qed

section \<open>Properties of the store operations\<close>

lemma save_data_calls [simp]: "calls (save_data obj w) = calls w"
  by (simp add: save_data_def)

lemma ensure_user_registered_frame [simp]:
  "calls (ensure_user_registered u c w) = calls w"
  "warnings (data (ensure_user_registered u c w)) = warnings (data w)"
  "banned (data (ensure_user_registered u c w)) = banned (data w)"
  "chats_config (data (ensure_user_registered u c w)) = chats_config (data w)"
  by (simp_all add: ensure_user_registered_def Let_def split: option.splits)

lemma get_chat_config_cong:
  "chats_config d = chats_config d' \<Longrightarrow> get_chat_config d c = get_chat_config d' c"
  by (simp add: get_chat_config_def)

lemma get_warnings_cong:
  "warnings d = warnings d' \<Longrightarrow> get_warnings d c u = get_warnings d' c u"
  by (simp add: get_warnings_def)

lemma get_chat_config_registered [simp]:
  "get_chat_config (data (ensure_user_registered u c w)) cid = get_chat_config (data w) cid"
  by (rule get_chat_config_cong) simp

lemma increment_warning_effect:
  "fst (increment_warning c u w) = get_warnings (data w) c u + 1"
  "get_warnings (data (snd (increment_warning c u w))) c' u' =
     (if c' = c \<and> u' = u then get_warnings (data w) c u + 1 else get_warnings (data w) c' u')"
  "calls (snd (increment_warning c u w)) = calls w"
  "chats_config (data (snd (increment_warning c u w))) = chats_config (data w)"
  "banned (data (snd (increment_warning c u w))) = banned (data w)"
  by (auto simp: increment_warning_def get_warnings_def Let_def split: option.splits)

lemma reset_warnings_effect:
  "get_warnings (data (reset_warnings c u w)) c' u' =
     (if c' = c \<and> u' = u then 0 else get_warnings (data w) c' u')"
  "calls (reset_warnings c u w) = calls w"
  "chats_config (data (reset_warnings c u w)) = chats_config (data w)"
  by (auto simp: reset_warnings_def get_warnings_def Let_def split: option.splits)

lemma ban_user_record_frame [simp]:
  "calls (ban_user_record c u w) = calls w"
  "warnings (data (ban_user_record c u w)) = warnings (data w)"
  "chats_config (data (ban_user_record c u w)) = chats_config (data w)"
  by (simp_all add: ban_user_record_def Let_def)

lemma ban_user_record_bans: "is_user_banned (data (ban_user_record c u w)) c u"
  by (simp add: ban_user_record_def is_user_banned_def Let_def)

lemma set_chat_config_frame [simp]:
  "calls (set_chat_config c conf w) = calls w"
  "warnings (data (set_chat_config c conf w)) = warnings (data w)"
  by (simp_all add: set_chat_config_def Let_def)

lemma unban_user_record_frame [simp]:
  "warnings (data (snd (unban_user_record c u w))) = warnings (data w)"
  by (simp add: unban_user_record_def save_data_polling_def Let_def split: option.splits)

lemma save_data_polling_writable:
  "writable w \<Longrightarrow> save_data_polling obj w = (Returned (), w\<lparr>disk := Object obj\<rparr>)"
  by (simp add: save_data_polling_def)

lemma save_data_polling_frame [simp]:
  "data (snd (save_data_polling obj w)) = data w"
  "calls (snd (save_data_polling obj w)) = calls w"
  "writable (snd (save_data_polling obj w)) = writable w"
  by (simp_all add: save_data_polling_def)

lemma ensure_chat_user_frame:
  "calls (snd (ensure_chat_user c u usr w)) = calls w"
  "warnings (data (snd (ensure_chat_user c u usr w))) = warnings (data w)"
  "banned (data (snd (ensure_chat_user c u usr w))) = banned (data w)"
  "writable (snd (ensure_chat_user c u usr w)) = writable w"
  by (simp_all add: ensure_chat_user_def Let_def split: option.splits)

lemma ensure_chat_user_returns:
  "writable w \<Longrightarrow> fst (ensure_chat_user c u usr w) = Returned ()"
  by (simp add: ensure_chat_user_def Let_def save_data_polling_def split: option.splits)

lemma increment_warning_polling_effect:
  "get_warnings (data (snd (increment_warning_polling c u w))) c' u' =
     (if c' = c \<and> u' = u then get_warnings (data w) c u + 1 else get_warnings (data w) c' u')"
  "calls (snd (increment_warning_polling c u w)) = calls w"
  "writable (snd (increment_warning_polling c u w)) = writable w"
  "banned (data (snd (increment_warning_polling c u w))) = banned (data w)"
  "writable w \<Longrightarrow> fst (increment_warning_polling c u w) = Returned (get_warnings (data w) c u + 1)"
  by (auto simp: increment_warning_polling_def get_warnings_def Let_def save_data_polling_def
      split: option.splits)

lemma reset_warnings_polling_effect:
  "get_warnings (data (snd (reset_warnings_polling c u w))) c' u' =
     (if c' = c \<and> u' = u then 0 else get_warnings (data w) c' u')"
  by (auto simp: reset_warnings_polling_def get_warnings_def Let_def save_data_polling_def
      split: option.splits)

lemma ban_user_record_polling_frame:
  "calls (snd (ban_user_record_polling c u w)) = calls w"
  "warnings (data (snd (ban_user_record_polling c u w))) = warnings (data w)"
  "writable (snd (ban_user_record_polling c u w)) = writable w"
  by (simp_all add: ban_user_record_polling_def Let_def save_data_polling_def)

lemma apply_op_count:
  "get_warnings (data (apply_op op w)) c u =
     (if op = IncrementWarning c u \<or> op = IncrementWarningPolling c u
      then get_warnings (data w) c u + 1
      else if op = ResetWarnings c u \<or> op = ResetWarningsPolling c u then 0
      else get_warnings (data w) c u)"
proof (cases op)
  case (IncrementWarning c' u')
  then show ?thesis by (auto simp: increment_warning_effect)
next
  case (ResetWarnings c' u')
  then show ?thesis by (auto simp: reset_warnings_effect)
next
  case (EnsureUserRegistered x c')
  then show ?thesis by (simp add: get_warnings_cong [of "data (ensure_user_registered x c' w)" "data w"])
next
  case (SetChatConfig c' conf)
  then show ?thesis by (simp add: get_warnings_cong [of "data (set_chat_config c' conf w)" "data w"])
next
  case (BanUserRecord c' u')
  then show ?thesis by (simp add: get_warnings_cong [of "data (ban_user_record c' u' w)" "data w"])
next
  case (UnbanUserRecord c' u')
  then show ?thesis
    by (simp add: get_warnings_cong [of "data (snd (unban_user_record c' u' w))" "data w"])
next
  case (IncrementWarningPolling c' u')
  then show ?thesis by (auto simp: increment_warning_polling_effect)
next
  case (ResetWarningsPolling c' u')
  then show ?thesis by (auto simp: reset_warnings_polling_effect)
qed

lemma counts_stay_nonneg:
  "(\<And>c u. 0 \<le> get_warnings (data w) c u) \<Longrightarrow> 0 \<le> get_warnings (data (fold apply_op ops w)) c u"
proof (induction ops arbitrary: w)
  case Nil
  then show ?case by simp
next
  case (Cons op ops)
  have "\<And>c u. 0 \<le> get_warnings (data (apply_op op w)) c u"
    using Cons.prems by (simp add: apply_op_count)
  from Cons.IH [OF this] show ?case by simp
qed

section \<open>Properties of the message handler\<close>

lemma message_handler_gate:
  assumes "effective_chat upd = Some ch"
      and "\<not> delete_links (get_chat_config (data w) (chat_id ch))"
  shows "calls (message_handler gw upd w) = calls w"
    and "warnings (data (message_handler gw upd w)) = warnings (data w)"
    and "banned (data (message_handler gw upd w)) = banned (data w)"
  using assms
  by (auto simp: message_handler_def Let_def split: option.splits)

lemma message_handler_config [simp]:
  "chats_config (data (message_handler gw upd w)) = chats_config (data w)"
  by (auto simp: message_handler_def Let_def call_def increment_warning_def
      split: option.splits prod.splits)

lemma ban_requests_append:
  "calls w' = calls w @ cs \<Longrightarrow>
   ban_requests c u w' = ban_requests c u w + length (filter (\<lambda>x. fst x = BanChatMember c u) cs)"
  by (simp add: ban_requests_def)

lemma message_handler_violation:
  assumes upd: "effective_chat upd = Some ch" "effective_user upd = Some usr"
      "effective_message upd = Some m"
    and grp: "chat_type ch = Group \<or> chat_type ch = Supergroup"
    and conf: "conf = get_chat_config (data w) (chat_id ch)"
    and on: "delete_links conf" "ban_on_limit conf"
    and viol: "violation conf m"
  shows "get_warnings (data (message_handler gw upd w)) (chat_id ch) (user_id usr)
           = get_warnings (data w) (chat_id ch) (user_id usr) + 1"
    and "ban_requests (chat_id ch) (user_id usr) (message_handler gw upd w)
           = ban_requests (chat_id ch) (user_id usr) w
             + (if warn_limit conf \<le> get_warnings (data w) (chat_id ch) (user_id usr) + 1
                then 1 else 0)"
proof -
  let ?c = "chat_id ch" and ?u = "user_id usr"
  let ?w1 = "ensure_user_registered usr (Some ?c) w"
  let ?d = "(DeleteMessage ?c (message_id m), gw (length (calls w)) (DeleteMessage ?c (message_id m)))"
  let ?w2 = "?w1\<lparr>calls := calls w @ [?d]\<rparr>"
  let ?n = "get_warnings (data w) ?c ?u + 1"
  let ?w3 = "snd (increment_warning ?c ?u ?w2)"
  have n: "fst (increment_warning ?c ?u ?w2) = ?n"
    by (simp add: increment_warning_effect get_warnings_cong [of "data ?w1" "data w"])
  let ?s = "(SendMessage ?c (WarningNotice ?u ?n (warn_limit conf)),
             gw (Suc (length (calls w))) (SendMessage ?c (WarningNotice ?u ?n (warn_limit conf))))"
  let ?w4 = "?w3\<lparr>calls := calls w @ [?d, ?s]\<rparr>"
  have c3: "calls ?w3 = calls w @ [?d]" by (simp add: increment_warning_effect)
  have g3: "get_warnings (data ?w3) ?c ?u = ?n"
    by (simp add: increment_warning_effect get_warnings_cong [of "data ?w1" "data w"])
  let ?b = "gw (Suc (Suc (length (calls w)))) (BanChatMember ?c ?u)"
  let ?w5 = "?w4\<lparr>calls := calls w @ [?d, ?s, (BanChatMember ?c ?u, ?b)]\<rparr>"
  let ?w6 = "ban_user_record ?c ?u ?w5"
  let ?t = "(SendMessage ?c (BanNotice ?u), gw (Suc (Suc (Suc (length (calls w))))) (SendMessage ?c (BanNotice ?u)))"
  let ?w7 = "?w6\<lparr>calls := calls w @ [?d, ?s, (BanChatMember ?c ?u, ?b), ?t]\<rparr>"
  have cond: "delete_links (get_chat_config (data ?w1) ?c)" "ban_on_limit (get_chat_config (data ?w1) ?c)"
    "warn_limit (get_chat_config (data ?w1) ?c) = warn_limit conf"
    using on conf by simp_all
  have viol': "text_contains_link (or_empty (msg_text m) @ '' '' @ or_empty (msg_caption m)) \<or>
      truthy (text_contains_banned_word (Some (or_empty (msg_text m) @ '' '' @ or_empty (msg_caption m)))
        (banned_words (get_chat_config (data ?w1) ?c)))"
    using viol conf by (simp add: violation_def Let_def)
  have run: "message_handler gw upd w =
      (if warn_limit conf \<le> ?n then (if ?b then ?w7 else ?w5) else ?w4)"
    using upd grp cond viol' n c3
    by (simp add: message_handler_def Let_def call_def split_beta)
  have w4: "calls ?w4 = calls w @ [?d, ?s]" "get_warnings (data ?w4) ?c ?u = ?n"
    using g3 by (simp_all add: get_warnings_def)
  have w5: "calls ?w5 = calls w @ [?d, ?s, (BanChatMember ?c ?u, ?b)]"
    "get_warnings (data ?w5) ?c ?u = ?n"
    using g3 by (simp_all add: get_warnings_def)
  have w7: "calls ?w7 = calls w @ [?d, ?s, (BanChatMember ?c ?u, ?b), ?t]"
    "get_warnings (data ?w7) ?c ?u = ?n"
    using g3 by (simp_all add: get_warnings_def)
  show "get_warnings (data (message_handler gw upd w)) ?c ?u = ?n"
    unfolding run using w4(2) w5(2) w7(2) by presburger
  have b4: "ban_requests ?c ?u ?w4 = ban_requests ?c ?u w"
    using ban_requests_append [OF w4(1), of ?c ?u] by simp
  have b5: "ban_requests ?c ?u ?w5 = ban_requests ?c ?u w + 1"
    using ban_requests_append [OF w5(1), of ?c ?u] by simp
  have b7: "ban_requests ?c ?u ?w7 = ban_requests ?c ?u w + 1"
    using ban_requests_append [OF w7(1), of ?c ?u] by simp
  show "ban_requests ?c ?u (message_handler gw upd w)
      = ban_requests ?c ?u w + (if warn_limit conf \<le> ?n then 1 else 0)"
  proof (cases "warn_limit conf \<le> ?n")
    case False
    with run have e: "message_handler gw upd w = ?w4" by (simp only: if_False)
    show ?thesis unfolding e b4 using False by simp
  next
    case True
    show ?thesis
    proof (cases ?b)
      case b: True
      from run True b have e: "message_handler gw upd w = ?w7" by (simp only: if_True)
      show ?thesis unfolding e b7 using True by simp
    next
      case b: False
      from run True b have e: "message_handler gw upd w = ?w5" by (simp only: if_True if_False)
      show ?thesis unfolding e b5 using True by simp
    qed
  qed
qed

lemma handle_all_violations:
  assumes grp: "chat_type ch = Group \<or> chat_type ch = Supergroup"
    and conf: "conf = get_chat_config (data w) (chat_id ch)"
    and on: "delete_links conf" "ban_on_limit conf"
    and ups: "\<forall>upd \<in> set ups. from_pair ch usr conf upd"
  shows "get_warnings (data (handle_all gw ups w)) (chat_id ch) (user_id usr)
           = get_warnings (data w) (chat_id ch) (user_id usr) + int (length ups)
       \<and> ban_requests (chat_id ch) (user_id usr) (handle_all gw ups w)
           = ban_requests (chat_id ch) (user_id usr) w
             + nat (int (length ups) + 1
                    - max (warn_limit conf - get_warnings (data w) (chat_id ch) (user_id usr)) 1)"
  using conf ups
proof (induction ups arbitrary: w)
  case Nil
  then show ?case by simp
next
  case (Cons upd ups)
  let ?c = "chat_id ch" and ?u = "user_id usr"
  let ?w' = "message_handler gw upd w"
  from Cons.prems(2) have fp: "from_pair ch usr conf upd" by simp
  then obtain m where m: "effective_chat upd = Some ch" "effective_user upd = Some usr"
      "effective_message upd = Some m" "violation conf m"
    by (auto simp: from_pair_def split: option.splits)
  note step = message_handler_violation [OF m(1) m(2) m(3) grp Cons.prems(1) on m(4), of gw]
  have conf': "conf = get_chat_config (data ?w') ?c"
    using Cons.prems(1) get_chat_config_cong [of "data ?w'" "data w" ?c] by simp
  from Cons.prems(2) have rest: "\<forall>upd \<in> set ups. from_pair ch usr conf upd" by simp
  from Cons.IH [OF conf' rest] step show ?case
    by (auto simp: max_def)
qed

lemma user_id_plain: "user_id (plain_user n) = n"
  by (simp add: plain_user_def)

lemma link_update_violation:
  "from_pair \<lparr>chat_id = -100, chat_type = Group\<rparr> (plain_user 7) conf link_update"
proof -
  have "text_contains_link ''http://x.com ''" by code_simp
  then show ?thesis
    by (simp add: from_pair_def link_update_def violation_def or_empty_def)
qed

lemma fresh_config:
  "get_chat_config (data (fresh_world Absent)) c =
     \<lparr>delete_links = True, warn_limit = 3, ban_on_limit = True, banned_words = GLOBAL_BANNED_WORDS\<rparr>"
  by (rule get_chat_config_unset) (simp add: fresh_world_def DEFAULT_DATA_def)

lemma fresh_count: "get_warnings (data (fresh_world Absent)) c u = 0"
  "ban_requests c u (fresh_world Absent) = 0"
  by (simp_all add: get_warnings_def fresh_world_def DEFAULT_DATA_def ban_requests_def)

lemma four_links_calls:
  "map fst (calls (handle_all gw_ok [link_update, link_update, link_update, link_update] (fresh_world Absent)))
     = [DeleteMessage (-100) 1, SendMessage (-100) (WarningNotice 7 1 3),
        DeleteMessage (-100) 1, SendMessage (-100) (WarningNotice 7 2 3),
        DeleteMessage (-100) 1, SendMessage (-100) (WarningNotice 7 3 3),
        BanChatMember (-100) 7, SendMessage (-100) (BanNotice 7),
        DeleteMessage (-100) 1, SendMessage (-100) (WarningNotice 7 4 3),
        BanChatMember (-100) 7, SendMessage (-100) (BanNotice 7)]"
  by code_simp

section \<open>Properties of the message handler of TGBot.py\<close>

lemma ban_user_record_polling_returns:
  "writable w \<Longrightarrow> fst (ban_user_record_polling c u w) = Returned ()"
  by (simp add: ban_user_record_polling_def Let_def save_data_polling_def)

lemma message_handler_polling_violation:
  assumes upd: "effective_chat upd = Some ch" "effective_user upd = Some usr"
      "effective_message upd = Some m"
    and grp: "chat_type ch = Group \<or> chat_type ch = Supergroup"
    and wr: "writable w"
    and viol: "contains_link_or_banned (or_empty (msg_text m) @ '' '' @ or_empty (msg_caption m))"
  shows "fst (message_handler_polling gw upd w) = Returned ()"
    and "writable (snd (message_handler_polling gw upd w))"
    and "get_warnings (data (snd (message_handler_polling gw upd w))) (chat_id ch) (user_id usr)
           = get_warnings (data w) (chat_id ch) (user_id usr) + 1"
    and "ban_requests (chat_id ch) (user_id usr) (snd (message_handler_polling gw upd w))
           = ban_requests (chat_id ch) (user_id usr) w
             + (if WARN_LIMIT \<le> get_warnings (data w) (chat_id ch) (user_id usr) + 1
                then 1 else 0)"
proof -
  let ?c = "chat_id ch" and ?u = "user_id usr"
  let ?n = "get_warnings (data w) ?c ?u + 1"
  obtain r1 w1 where e: "ensure_chat_user ?c ?u usr w = (r1, w1)" by (cases "ensure_chat_user ?c ?u usr w")
  have r1: "r1 = Returned ()" using ensure_chat_user_returns [OF wr, of ?c ?u usr] e by simp
  have f1: "calls w1 = calls w" "warnings (data w1) = warnings (data w)" "writable w1"
    using ensure_chat_user_frame [of ?c ?u usr w] e wr by simp_all
  let ?d = "(DeleteMessage ?c (message_id m), gw (length (calls w)) (DeleteMessage ?c (message_id m)))"
  define w2 where "w2 = w1\<lparr>calls := calls w @ [?d]\<rparr>"
  have f2: "calls w2 = calls w @ [?d]" "writable w2" "get_warnings (data w2) ?c ?u = ?n - 1"
    using f1 by (simp_all add: w2_def get_warnings_def)
  obtain r3 w3 where i: "increment_warning_polling ?c ?u w2 = (r3, w3)"
    by (cases "increment_warning_polling ?c ?u w2")
  have r3: "r3 = Returned ?n"
    using increment_warning_polling_effect(5) [OF f2(2), of ?c ?u] i f2(3) by simp
  have f3: "calls w3 = calls w @ [?d]" "writable w3" "get_warnings (data w3) ?c ?u = ?n"
    using increment_warning_polling_effect(1-3) [of ?c ?u w2] i f2 by simp_all
  let ?s = "(SendMessage ?c (WarningNotice ?u ?n WARN_LIMIT),
             gw (Suc (length (calls w))) (SendMessage ?c (WarningNotice ?u ?n WARN_LIMIT)))"
  define w4 where "w4 = w3\<lparr>calls := calls w @ [?d, ?s]\<rparr>"
  have f4: "calls w4 = calls w @ [?d, ?s]" "writable w4" "get_warnings (data w4) ?c ?u = ?n"
    using f3 by (simp_all add: w4_def get_warnings_def)
  define b where "b = gw (Suc (Suc (length (calls w)))) (BanChatMember ?c ?u)"
  define w5 where "w5 = w4\<lparr>calls := calls w @ [?d, ?s, (BanChatMember ?c ?u, b)]\<rparr>"
  have f5: "calls w5 = calls w @ [?d, ?s, (BanChatMember ?c ?u, b)]" "writable w5"
      "get_warnings (data w5) ?c ?u = ?n"
    using f4 by (simp_all add: w5_def get_warnings_def)
  obtain r6 w6 where br: "ban_user_record_polling ?c ?u w5 = (r6, w6)"
    by (cases "ban_user_record_polling ?c ?u w5")
  have r6: "r6 = Returned ()"
    using ban_user_record_polling_returns [OF f5(2), of ?c ?u] br by simp
  have f6: "calls w6 = calls w5" "writable w6" "get_warnings (data w6) ?c ?u = ?n"
    using ban_user_record_polling_frame [of ?c ?u w5] br f5
      get_warnings_cong [of "data w6" "data w5" ?c ?u] by simp_all
  let ?t = "(SendMessage ?c (BanNotice ?u), gw (Suc (Suc (Suc (length (calls w))))) (SendMessage ?c (BanNotice ?u)))"
  define w7 where "w7 = w6\<lparr>calls := calls w @ [?d, ?s, (BanChatMember ?c ?u, b), ?t]\<rparr>"
  have f7: "calls w7 = calls w @ [?d, ?s, (BanChatMember ?c ?u, b), ?t]" "writable w7"
      "get_warnings (data w7) ?c ?u = ?n"
    using f6 by (simp_all add: w7_def get_warnings_def)
  have run: "message_handler_polling gw upd w =
      (Returned (), if WARN_LIMIT \<le> ?n then (if b then w7 else w5) else w4)"
  proof (cases b)
    case True
    then have g: "gw (Suc (Suc (length (calls w)))) (BanChatMember ?c ?u)" by (simp add: b_def)
    from g True upd grp viol e r1 f1(1) i r3 f3(1) br r6 f5(1) f6(1) show ?thesis
      by (simp add: message_handler_polling_def Let_def call_def w2_def w4_def w5_def w7_def b_def)
  next
    case False
    then have g: "\<not> gw (Suc (Suc (length (calls w)))) (BanChatMember ?c ?u)" by (simp add: b_def)
    from g False upd grp viol e r1 f1(1) i r3 f3(1) show ?thesis
      by (simp add: message_handler_polling_def Let_def call_def w2_def w4_def w5_def b_def)
  qed
  show "fst (message_handler_polling gw upd w) = Returned ()" by (simp add: run)
  show "writable (snd (message_handler_polling gw upd w))" using f4 f5 f7 by (simp add: run)
  show "get_warnings (data (snd (message_handler_polling gw upd w))) ?c ?u = ?n"
    using f4(3) f5(3) f7(3) by (simp add: run)
  have b4: "ban_requests ?c ?u w4 = ban_requests ?c ?u w"
    using ban_requests_append [OF f4(1), of ?c ?u] by simp
  have b5: "ban_requests ?c ?u w5 = ban_requests ?c ?u w + 1"
    using ban_requests_append [OF f5(1), of ?c ?u] by simp
  have b7: "ban_requests ?c ?u w7 = ban_requests ?c ?u w + 1"
    using ban_requests_append [OF f7(1), of ?c ?u] by simp
  show "ban_requests ?c ?u (snd (message_handler_polling gw upd w))
      = ban_requests ?c ?u w + (if WARN_LIMIT \<le> ?n then 1 else 0)"
    using b4 b5 b7 by (simp add: run)
qed

lemma handle_all_polling_violations:
  assumes grp: "chat_type ch = Group \<or> chat_type ch = Supergroup"
    and wr: "writable w"
    and ups: "\<forall>upd \<in> set ups. from_pair_polling ch usr upd"
  shows "get_warnings (data (handle_all_polling gw ups w)) (chat_id ch) (user_id usr)
           = get_warnings (data w) (chat_id ch) (user_id usr) + int (length ups)
       \<and> ban_requests (chat_id ch) (user_id usr) (handle_all_polling gw ups w)
           = ban_requests (chat_id ch) (user_id usr) w
             + nat (int (length ups) + 1
                    - max (WARN_LIMIT - get_warnings (data w) (chat_id ch) (user_id usr)) 1)"
  using wr ups
proof (induction ups arbitrary: w)
  case Nil
  then show ?case by simp
next
  case (Cons upd ups)
  let ?w' = "snd (message_handler_polling gw upd w)"
  from Cons.prems(2) have "from_pair_polling ch usr upd" by simp
  then obtain m where m: "effective_chat upd = Some ch" "effective_user upd = Some usr"
      "effective_message upd = Some m"
      "contains_link_or_banned (or_empty (msg_text m) @ '' '' @ or_empty (msg_caption m))"
    by (auto simp: from_pair_polling_def split: option.splits)
  note step = message_handler_polling_violation [OF m(1) m(2) m(3) grp Cons.prems(1) m(4), of gw]
  from Cons.prems(2) have rest: "\<forall>upd \<in> set ups. from_pair_polling ch usr upd" by simp
  from Cons.IH [OF step(2) rest] step(3,4) show ?case
    by (auto simp: max_def)
qed

lemma link_update_violation_polling:
  "from_pair_polling \<lparr>chat_id = -100, chat_type = Group\<rparr> (plain_user 7) link_update"
proof -
  have "contains_link_or_banned ''http://x.com ''" by code_simp
  then show ?thesis
    by (simp add: from_pair_polling_def link_update_def or_empty_def)
qed

section \<open>Claim C1\<close>

text \<open>
  C1 as stated fails, in both variants. With the threshold 3 (the default of TGBot2.py,
  \<open>WARN_LIMIT\<close> of TGBot.py) and ban-on-threshold enabled, a user who posts four
  links in a group gets no ban request at the first two, one at the third, where the
  count reaches 3, and one more at the fourth: the handlers test
  \<open>new_count >= warn_limit\<close> (\<open>new_count >= WARN_LIMIT\<close>) at every violation.
\<close>

theorem ban_requested_again:
  "ban_requests (-100) 7 (handle_all gw_ok [link_update, link_update] (fresh_world Absent)) = 0
   \<and> ban_requests (-100) 7 (handle_all gw_ok [link_update, link_update, link_update]
        (fresh_world Absent)) = 1
   \<and> ban_requests (-100) 7 (handle_all gw_ok [link_update, link_update, link_update, link_update]
        (fresh_world Absent)) = 2
   \<and> get_warnings (data (handle_all gw_ok [link_update, link_update, link_update, link_update]
        (fresh_world Absent))) (-100) 7 = 4
   \<and> ban_requests (-100) 7 (handle_all_polling gw_ok
        [link_update, link_update, link_update] (fresh_world Absent)) = 1
   \<and> ban_requests (-100) 7 (handle_all_polling gw_ok
        [link_update, link_update, link_update, link_update] (fresh_world Absent)) = 2
   \<and> get_warnings (data (handle_all_polling gw_ok
        [link_update, link_update, link_update, link_update] (fresh_world Absent))) (-100) 7 = 4"
proof -
  let ?ch = "\<lparr>chat_id = -100, chat_type = Group\<rparr>"
  have grp: "chat_type ?ch = Group \<or> chat_type ?ch = Supergroup" by simp
  have run: "get_warnings (data (handle_all gw_ok ups (fresh_world Absent))) (-100) 7
           = int (length ups)
       \<and> ban_requests (-100) 7 (handle_all gw_ok ups (fresh_world Absent))
           = nat (int (length ups) + 1 - 3)"
    if "\<forall>upd \<in> set ups. upd = link_update" for ups
  proof -
    from that have fp: "\<forall>upd \<in> set ups. from_pair ?ch (plain_user 7)
        (get_chat_config (data (fresh_world Absent)) (chat_id ?ch)) upd"
      using link_update_violation by auto
    from handle_all_violations [OF grp refl _ _ fp, of gw_ok] show ?thesis
      by (simp add: fresh_config fresh_count user_id_plain)
  qed
  have wr: "writable (fresh_world Absent)" by (simp add: fresh_world_def)
  have run_polling:
    "get_warnings (data (handle_all_polling gw_ok ups (fresh_world Absent))) (-100) 7
           = int (length ups)
       \<and> ban_requests (-100) 7 (handle_all_polling gw_ok ups (fresh_world Absent))
           = nat (int (length ups) + 1 - 3)"
    if "\<forall>upd \<in> set ups. upd = link_update" for ups
  proof -
    from that have fp: "\<forall>upd \<in> set ups. from_pair_polling ?ch (plain_user 7) upd"
      using link_update_violation_polling by auto
    from handle_all_polling_violations [OF grp wr fp, of gw_ok] show ?thesis
      by (simp add: fresh_count user_id_plain WARN_LIMIT_def)
  qed
  from run [of "[link_update, link_update]"] run [of "[link_update, link_update, link_update]"]
    run [of "[link_update, link_update, link_update, link_update]"]
    run_polling [of "[link_update, link_update, link_update]"]
    run_polling [of "[link_update, link_update, link_update, link_update]"]
  show ?thesis by simp
qed

text \<open>
  C1, as amended. For a group or supergroup and a user whose warning count there is 0,
  after \<open>n\<close> consecutive qualifying violations the warning count is \<open>n\<close>, and the
  handler has requested a ban at every violation whose new count is at least the
  threshold \<open>T\<close>, that is first at the violation where the count reaches \<open>T\<close> and again
  at each later one: \<open>n + 1 - max T 1\<close> requests in all (none when \<open>n < T\<close>), whatever
  the gateway answers. This holds for \<open>message_handler\<close> of TGBot2.py when the
  effective policy of the conversation has link deletion and ban-on-threshold enabled
  and the threshold \<open>T\<close>, and for \<open>message_handler\<close> of TGBot.py with \<open>T = WARN_LIMIT\<close>
  when the data file can be written.
\<close>

theorem ban_requested_at_every_violation_from_threshold:
  assumes "chat_type ch = Group \<or> chat_type ch = Supergroup"
    and "get_warnings (data w) (chat_id ch) (user_id usr) = 0"
  shows "(conf = get_chat_config (data w) (chat_id ch) \<and> delete_links conf \<and> ban_on_limit conf
          \<and> (\<forall>upd \<in> set ups. from_pair ch usr conf upd)
          \<longrightarrow> get_warnings (data (handle_all gw ups w)) (chat_id ch) (user_id usr)
                = int (length ups)
              \<and> ban_requests (chat_id ch) (user_id usr) (handle_all gw ups w)
                = ban_requests (chat_id ch) (user_id usr) w
                  + nat (int (length ups) + 1 - max (warn_limit conf) 1))
       \<and> (writable w \<and> (\<forall>upd \<in> set ups. from_pair_polling ch usr upd)
          \<longrightarrow> get_warnings (data (handle_all_polling gw ups w)) (chat_id ch) (user_id usr)
                = int (length ups)
              \<and> ban_requests (chat_id ch) (user_id usr) (handle_all_polling gw ups w)
                = ban_requests (chat_id ch) (user_id usr) w
                  + nat (int (length ups) + 1 - max WARN_LIMIT 1))"
proof (intro conjI impI)
  assume h: "conf = get_chat_config (data w) (chat_id ch) \<and> delete_links conf \<and> ban_on_limit conf
          \<and> (\<forall>upd \<in> set ups. from_pair ch usr conf upd)"
  then have c: "conf = get_chat_config (data w) (chat_id ch)" and d: "delete_links conf"
    and b: "ban_on_limit conf" and u: "\<forall>upd \<in> set ups. from_pair ch usr conf upd"
    by blast+
  from handle_all_violations [OF assms(1) c d b u, of gw] assms(2)
  show "get_warnings (data (handle_all gw ups w)) (chat_id ch) (user_id usr) = int (length ups)"
    and "ban_requests (chat_id ch) (user_id usr) (handle_all gw ups w)
          = ban_requests (chat_id ch) (user_id usr) w
            + nat (int (length ups) + 1 - max (warn_limit conf) 1)"
    by simp_all
next
  assume h: "writable w \<and> (\<forall>upd \<in> set ups. from_pair_polling ch usr upd)"
  then have wr: "writable w" and u: "\<forall>upd \<in> set ups. from_pair_polling ch usr upd"
    by blast+
  from handle_all_polling_violations [OF assms(1) wr u, of gw] assms(2)
  show "get_warnings (data (handle_all_polling gw ups w)) (chat_id ch) (user_id usr)
          = int (length ups)"
    and "ban_requests (chat_id ch) (user_id usr) (handle_all_polling gw ups w)
          = ban_requests (chat_id ch) (user_id usr) w
            + nat (int (length ups) + 1 - max WARN_LIMIT 1)"
    by simp_all
qed

theorem ban_requested_at_every_violation_from_threshold_witness:
  "get_warnings (data (handle_all gw_ok
       [link_update, link_update, link_update, link_update, link_update] (fresh_world Absent)))
     (-100) 7 = 5
   \<and> ban_requests (-100) 7 (handle_all gw_ok
       [link_update, link_update, link_update, link_update, link_update] (fresh_world Absent)) = 3
   \<and> get_warnings (data (handle_all_polling gw_ok
       [link_update, link_update, link_update, link_update, link_update] (fresh_world Absent)))
     (-100) 7 = 5
   \<and> ban_requests (-100) 7 (handle_all_polling gw_ok
       [link_update, link_update, link_update, link_update, link_update] (fresh_world Absent)) = 3"
proof -
  let ?ch = "\<lparr>chat_id = -100, chat_type = Group\<rparr>"
  let ?ups = "[link_update, link_update, link_update, link_update, link_update]"
  let ?conf = "get_chat_config (data (fresh_world Absent)) (chat_id ?ch)"
  have fp: "\<forall>upd \<in> set ?ups. from_pair ?ch (plain_user 7) ?conf upd"
    using link_update_violation by auto
  have fpp: "\<forall>upd \<in> set ?ups. from_pair_polling ?ch (plain_user 7) upd"
    using link_update_violation_polling by auto
  have grp: "chat_type ?ch = Group \<or> chat_type ?ch = Supergroup" by simp
  have on: "delete_links ?conf" "ban_on_limit ?conf"
    by (simp_all add: fresh_config)
  have wr: "writable (fresh_world Absent)" by (simp add: fresh_world_def)
  have zero: "get_warnings (data (fresh_world Absent)) (chat_id ?ch) (user_id (plain_user 7)) = 0"
    by (simp add: fresh_count)
  note t = ban_requested_at_every_violation_from_threshold [OF grp zero, of ?conf ?ups gw_ok]
  from t on fp have webhook:
    "get_warnings (data (handle_all gw_ok ?ups (fresh_world Absent))) (chat_id ?ch)
        (user_id (plain_user 7)) = int (length ?ups)
     \<and> ban_requests (chat_id ?ch) (user_id (plain_user 7)) (handle_all gw_ok ?ups (fresh_world Absent))
        = ban_requests (chat_id ?ch) (user_id (plain_user 7)) (fresh_world Absent)
          + nat (int (length ?ups) + 1 - max (warn_limit ?conf) 1)"
    by blast
  from t wr fpp have polling:
    "get_warnings (data (handle_all_polling gw_ok ?ups (fresh_world Absent))) (chat_id ?ch)
        (user_id (plain_user 7)) = int (length ?ups)
     \<and> ban_requests (chat_id ?ch) (user_id (plain_user 7))
          (handle_all_polling gw_ok ?ups (fresh_world Absent))
        = ban_requests (chat_id ?ch) (user_id (plain_user 7)) (fresh_world Absent)
          + nat (int (length ?ups) + 1 - max WARN_LIMIT 1)"
    by blast
  from webhook polling show ?thesis
    by (simp add: fresh_config fresh_count user_id_plain WARN_LIMIT_def)
qed

section \<open>Claim C2\<close>

text \<open>
  C2 at the failing input. When \<open>data.json\<close> exists and is not JSON, or cannot be
  read, \<open>load_data\<close> of TGBot.py raises (\<open>json.load\<close> and \<open>open\<close> are not inside a
  \<open>try\<close>), where \<open>load_data\<close> of TGBot2.py returns the empty default structure.
\<close>

theorem load_data_polling_raises:
  "fst (load_data_polling (fresh_world Malformed)) = Raised JSONDecodeError
   \<and> fst (load_data_polling (fresh_world Unreadable)) = Raised OSError
   \<and> fst (load_data (fresh_world Malformed)) = DEFAULT_DATA
   \<and> fst (load_data (fresh_world Unreadable)) = DEFAULT_DATA"
  by (simp add: load_data_polling_def load_data_def fresh_world_def)

section \<open>Claim C3\<close>

text \<open>
  C3 at the failing input. User 42 is in the ban ledger of the group -100 and an
  administrator sends \<open>/unban 42\<close> there; the gateway accepts the call. \<open>cmd_unban\<close> of
  TGBot2.py answers \<open>User unbanned.\<close> and leaves the ledger as it was, so the pair is
  still banned for \<open>is_user_banned\<close>; \<open>cmd_unban\<close> of TGBot.py, which calls
  \<open>unban_user_record\<close>, clears the entry.
\<close>

theorem cmd_unban_leaves_ledger_entry:
  "is_user_banned (data banned_world) (-100) 42
   \<and> cmd_unban gw_ok [1] (unban_cmd 1) banned_world =
       (Returned (), banned_world\<lparr>calls := [(UnbanChatMember (-100) 42, True),
                                             (ReplyText UserUnbanned, True)]\<rparr>)
   \<and> is_user_banned (data (snd (cmd_unban gw_ok [1] (unban_cmd 1) banned_world))) (-100) 42
   \<and> \<not> is_user_banned (data (snd (cmd_unban_polling gw_ok (unban_cmd 1293486023) banned_world))) (-100) 42"
  by (simp add: cmd_unban_def cmd_unban_polling_def unban_user_record_def unban_cmd_def
      banned_world_def fresh_world_def plain_user_def is_admin_def py_int_42 call_def gw_ok_def
      is_user_banned_def DEFAULT_DATA_def save_data_polling_def ADMIN_IDS_polling_def Let_def)

section \<open>Claim C4\<close>

text \<open>
  C4 at the failing input. One registered user and one configured channel, so two
  recipients; an administrator replies to a message with \<open>/broadcast\<close>. The forwarding
  branch of TGBot.py attempts the user only and reports \<open>sent=1, failed=0\<close>; the
  channel is never attempted. The forwarding branch of TGBot2.py and the text branch of
  TGBot.py attempt both.
\<close>

theorem polling_forward_skips_channels:
  "recipients (data user_and_channel) = [1, -100]
   \<and> calls (snd (cmd_broadcast_polling gw_ok (forward_cmd 1293486023) user_and_channel)) =
       [(ForwardMessage 1 5 7, True), (ReplyText (BroadcastReport 1 0), True)]
   \<and> calls (snd (cmd_broadcast gw_ok [1] (forward_cmd 1) user_and_channel)) =
       [(ForwardMessage 1 5 7, True), (ForwardMessage (-100) 5 7, True),
        (ReplyText (BroadcastReport 2 0), True)]
   \<and> calls (snd (cmd_broadcast_polling gw_ok ((forward_cmd 1293486023)\<lparr>args := [''news'']\<rparr>)
        user_and_channel)) =
       [(SendMessage 1 (Text ''news''), True), (SendMessage (-100) (Text ''news''), True),
        (ReplyText (BroadcastReport 2 0), True)]"
  by (simp add: cmd_broadcast_polling_def cmd_broadcast_def user_and_channel_def fresh_world_def
      DEFAULT_DATA_def forward_cmd_def plain_user_def is_admin_def ADMIN_IDS_polling_def
      call_def reply_def gw_ok_def recipients_def Let_def)

section \<open>Claim C6\<close>

text \<open>
  The claim as stated, for every effective set of banned words, fails. The set can hold
  the empty word: \<open>/setconfig add_banned=\<close> adds what stands behind the \<open>=\<close>, stripped and
  lowered, without testing that anything is left. The empty word occurs in every text,
  yet \<open>if w and w in lowered\<close> skips it, so \<open>hello\<close> is not matched. A set read from the
  state file can hold a word with a capital letter; the word itself is never lowered,
  so \<open>Spam\<close> is not found in \<open>buy spam\<close>, although the two agree up to case.
\<close>

theorem empty_or_mixed_case_word_not_matched:
  "[] \<in> set (banned_words (get_chat_config
           (data (snd (cmd_setconfig gw_ok [1] (setconfig_cmd [''add_banned=''])
              (fresh_world Absent)))) (-100)))
   \<and> text_contains_banned_word (Some ''hello'') [[]] = None
   \<and> lower ''hello'' = [] @ lower [] @ ''hello''
   \<and> text_contains_banned_word (Some ''buy spam'') [''Spam''] = None
   \<and> lower ''buy spam'' = ''buy '' @ lower ''Spam'' @ []"
proof -
  have a: "text_contains_banned_word (Some ''hello'') [[]] = None"
    by (simp add: text_contains_banned_word_def)
  have b: "lower ''hello'' = [] @ lower [] @ ''hello''"
    by (simp add: lower_def lower_char_def is_upper_def)
  have c: "text_contains_banned_word (Some ''buy spam'') [''Spam''] = None"
    by (simp add: text_contains_banned_word_def lower_def lower_char_def is_upper_def)
  have d: "lower ''buy spam'' = ''buy '' @ lower ''Spam'' @ []"
    by (simp add: lower_def lower_char_def is_upper_def)
  from add_banned_empty a b c d show ?thesis by blast
qed

text \<open>
  C6, as amended. Banned-word detection lowers the message text and reports a match
  exactly when the text is not empty and some non-empty word of the banned-word set
  occurs in the lowered text as the word is written. For a set whose words are all
  non-empty and in lower case (the global defaults are, and so is every non-empty word
  that \<open>add_banned\<close> stores) this is a case-insensitive substring match: a match is
  reported exactly when some word, compared without regard to case, occurs in the text.
  With the banned set \<open>{spam}\<close>, the texts \<open>SPAM now\<close> and \<open>buy Spam1\<close> match and \<open>span\<close>
  does not. An empty or absent text never matches, whatever the set of words.
\<close>

theorem banned_word_case_insensitive_substring:
  "((\<forall>w \<in> set ws. w \<noteq> [] \<and> lower w = w) \<longrightarrow>
      (text_contains_banned_word (Some t) ws \<noteq> None \<longleftrightarrow>
         (\<exists>w \<in> set ws. \<exists>a b. lower t = a @ lower w @ b)))
   \<and> (text_contains_banned_word (Some t) ws \<noteq> None \<longleftrightarrow>
         t \<noteq> [] \<and> (\<exists>w \<in> set ws. w \<noteq> [] \<and> (\<exists>a b. lower t = a @ w @ b)))
   \<and> text_contains_banned_word (Some ''SPAM now'') [''spam''] = Some ''spam''
   \<and> text_contains_banned_word (Some ''buy Spam1'') [''spam''] = Some ''spam''
   \<and> text_contains_banned_word (Some ''span'') [''spam''] = None
   \<and> text_contains_banned_word None ws = None
   \<and> text_contains_banned_word (Some []) ws = None"
proof -
  have general: "text_contains_banned_word (Some t) ws \<noteq> None \<longleftrightarrow>
      (\<exists>w \<in> set ws. \<exists>a b. lower t = a @ lower w @ b)"
    if words: "\<forall>w \<in> set ws. w \<noteq> [] \<and> lower w = w"
  proof
    assume "text_contains_banned_word (Some t) ws \<noteq> None"
    then obtain w where w: "w \<in> set ws" "str_in w (lower t)"
      unfolding banned_word_match_iff by blast
    from w(2) obtain a b where "lower t = a @ w @ b" by (auto simp: str_in_iff)
    with words w(1) have "lower t = a @ lower w @ b" by simp
    with w(1) show "\<exists>w \<in> set ws. \<exists>a b. lower t = a @ lower w @ b" by blast
  next
    assume "\<exists>w \<in> set ws. \<exists>a b. lower t = a @ lower w @ b"
    then obtain w a b where w: "w \<in> set ws" "lower t = a @ lower w @ b" by blast
    with words have nonempty: "w \<noteq> []" and low: "lower t = a @ w @ b" by auto
    from low have "str_in w (lower t)" by (auto simp: str_in_iff)
    moreover from low nonempty have "t \<noteq> []" by (auto simp: lower_def)
    ultimately show "text_contains_banned_word (Some t) ws \<noteq> None"
      unfolding banned_word_match_iff using w(1) nonempty by blast
  qed
  have exact: "text_contains_banned_word (Some t) ws \<noteq> None \<longleftrightarrow>
      t \<noteq> [] \<and> (\<exists>w \<in> set ws. w \<noteq> [] \<and> (\<exists>a b. lower t = a @ w @ b))"
    unfolding banned_word_match_iff str_in_iff ..
  have ex1: "text_contains_banned_word (Some ''SPAM now'') [''spam''] = Some ''spam''"
    by (simp add: text_contains_banned_word_def lower_examples)
  have ex2: "text_contains_banned_word (Some ''buy Spam1'') [''spam''] = Some ''spam''"
    by (simp add: text_contains_banned_word_def lower_examples)
  have ex3: "text_contains_banned_word (Some ''span'') [''spam''] = None"
    by (simp add: text_contains_banned_word_def lower_examples)
  have absent: "text_contains_banned_word None ws = None"
    by (simp add: text_contains_banned_word_def)
  have empty: "text_contains_banned_word (Some []) ws = None"
    by (simp add: text_contains_banned_word_def)
  from general exact ex1 ex2 ex3 absent empty show ?thesis by blast
qed

theorem banned_word_case_insensitive_substring_witness:
  "''spam'' \<noteq> [] \<and> lower ''spam'' = ''spam''
   \<and> text_contains_banned_word (Some ''Buy SpAm'') [''spam''] \<noteq> None
   \<and> (\<exists>a b. lower ''Buy SpAm'' = a @ lower ''spam'' @ b)"
proof -
  have h: "\<forall>w \<in> set [''spam'']. w \<noteq> [] \<and> lower w = w"
    by (simp add: lower_examples)
  have m: "text_contains_banned_word (Some ''Buy SpAm'') [''spam''] \<noteq> None"
    by (simp add: text_contains_banned_word_def lower_def lower_char_def is_upper_def)
  from banned_word_case_insensitive_substring [of "[''spam'']" "''Buy SpAm''"] h m
  have "\<exists>w \<in> set [''spam'']. \<exists>a b. lower ''Buy SpAm'' = a @ lower w @ b" by blast
  with h m show ?thesis by simp
qed

section \<open>Claim C7\<close>

text \<open>
  C7. For a conversation with no stored configuration the effective policy is the
  system defaults: threshold 3, link deletion on, ban-on-threshold on, and the global
  banned words. After an administrator's \<open>/setconfig add_banned=foo\<close> in such a group
  the effective set of banned words is \<open>foo\<close> together with the global defaults. An
  update changes only the fields it names: whatever \<open>cmd_setconfig\<close> does, a field of
  the effective policy for which the arguments hold no token stays as it was, and so
  does the policy of every other conversation.
\<close>

theorem effective_policy_defaults_and_partial_update:
  fixes gw A cmd w c
  defines "before \<equiv> get_chat_config (data w) c"
      and "after \<equiv> get_chat_config (data (snd (cmd_setconfig gw A cmd w))) c"
  shows "(chats_config (data w) c = None \<longrightarrow>
            before = \<lparr>delete_links = True, warn_limit = 3, ban_on_limit = True,
                       banned_words = GLOBAL_BANNED_WORDS\<rparr>)
    \<and> (chats_config (data w) c = None \<and> is_admin A (user_id (sender cmd))
         \<and> cmd_chat cmd = \<lparr>chat_id = c, chat_type = Group\<rparr> \<and> args cmd = [''add_banned=foo'']
         \<longrightarrow> set (banned_words after) = {''foo''} \<union> set GLOBAL_BANNED_WORDS)
    \<and> ((\<forall>t \<in> set (args cmd). \<not> starts_with t ''delete_links='')
          \<longrightarrow> delete_links after = delete_links before)
    \<and> ((\<forall>t \<in> set (args cmd). \<not> starts_with t ''warn_limit='')
          \<longrightarrow> warn_limit after = warn_limit before)
    \<and> ((\<forall>t \<in> set (args cmd). \<not> starts_with t ''ban_on_limit='')
          \<longrightarrow> ban_on_limit after = ban_on_limit before)
    \<and> ((\<forall>t \<in> set (args cmd). \<not> starts_with t ''add_banned='' \<and> \<not> starts_with t ''remove_banned='')
          \<longrightarrow> set (banned_words after) = set (banned_words before))
    \<and> (c \<noteq> chat_id (cmd_chat cmd) \<longrightarrow> after = before)"
proof -
  have unset: "before = \<lparr>delete_links = True, warn_limit = 3, ban_on_limit = True,
                       banned_words = GLOBAL_BANNED_WORDS\<rparr>"
    if "chats_config (data w) c = None"
    using that by (simp add: before_def get_chat_config_unset)
  have add: "set (banned_words after) = {''foo''} \<union> set GLOBAL_BANNED_WORDS"
    if h: "chats_config (data w) c = None" "is_admin A (user_id (sender cmd))"
      "cmd_chat cmd = \<lparr>chat_id = c, chat_type = Group\<rparr>" "args cmd = [''add_banned=foo'']"
  proof -
    have tok: "after_eq ''add_banned=foo'' = ''foo''" "strip ''foo'' = ''foo''" "lower ''foo'' = ''foo''"
      by (simp_all add: after_eq_def strip_def lower_def lower_char_def is_upper_def is_space_def)
    have "apply_tokens (args cmd) (get_chat_config (data w) c)
        = Returned ((get_chat_config (data w) c)\<lparr>banned_words :=
            set_add ''foo'' (banned_words (get_chat_config (data w) c))\<rparr>)"
      by (simp add: h(4) apply_token_def tok)
    with h have "data (snd (cmd_setconfig gw A cmd w))
        = data (set_chat_config c ((get_chat_config (data w) c)\<lparr>banned_words :=
            set_add ''foo'' (banned_words (get_chat_config (data w) c))\<rparr>) w)"
      by (simp add: cmd_setconfig_def Let_def)
    then show ?thesis
      using h(1) by (simp add: after_def get_after_set get_chat_config_unset)
  qed
  from cmd_setconfig_partial [of cmd gw A w c] unset add show ?thesis
    unfolding before_def after_def by blast
qed

lemma tok_warn_limit: "after_eq ''warn_limit=5'' = ''5''" "isdigit ''5''" "py_int ''5'' = Some 5"
  by (simp_all add: after_eq_def isdigit_def isdigit_char_def py_int_def is_digit_def digit_value_def)

theorem effective_policy_defaults_and_partial_update_witness:
  "chats_config (data (fresh_world Absent)) (-100) = None
   \<and> get_chat_config (data (fresh_world Absent)) (-100)
       = \<lparr>delete_links = True, warn_limit = 3, ban_on_limit = True,
          banned_words = GLOBAL_BANNED_WORDS\<rparr>
   \<and> set (banned_words (get_chat_config (data (snd (cmd_setconfig gw_ok [1]
         (setconfig_cmd [''add_banned=foo'']) (fresh_world Absent)))) (-100)))
       = {''foo''} \<union> set GLOBAL_BANNED_WORDS
   \<and> get_chat_config (data (snd (cmd_setconfig gw_ok [1]
         (setconfig_cmd [''warn_limit=5'']) (fresh_world Absent)))) (-100)
       = \<lparr>delete_links = True, warn_limit = 5, ban_on_limit = True,
          banned_words = GLOBAL_BANNED_WORDS\<rparr>"
proof -
  let ?w = "fresh_world Absent"
  have unset: "chats_config (data ?w) (-100) = None"
    by (simp add: fresh_world_def DEFAULT_DATA_def)
  have adm: "is_admin [1] (user_id (sender (setconfig_cmd ts)))"
    "cmd_chat (setconfig_cmd ts) = \<lparr>chat_id = -100, chat_type = Group\<rparr>"
    "args (setconfig_cmd ts) = ts" for ts
    by (simp_all add: setconfig_cmd_def is_admin_def plain_user_def)
  note t1 = effective_policy_defaults_and_partial_update
    [of "?w" "-100" "[1]" "setconfig_cmd [''add_banned=foo'']" gw_ok]
  note t2 = effective_policy_defaults_and_partial_update
    [of "?w" "-100" "[1]" "setconfig_cmd [''warn_limit=5'']" gw_ok]
  from t1 unset have before: "get_chat_config (data ?w) (-100)
       = \<lparr>delete_links = True, warn_limit = 3, ban_on_limit = True,
          banned_words = GLOBAL_BANNED_WORDS\<rparr>" by blast
  from t1 unset adm have added: "set (banned_words (get_chat_config (data (snd (cmd_setconfig gw_ok [1]
         (setconfig_cmd [''add_banned=foo'']) ?w))) (-100)))
       = {''foo''} \<union> set GLOBAL_BANNED_WORDS" by blast
  have "apply_tokens [''warn_limit=5''] (get_chat_config (data ?w) (-100))
      = Returned ((get_chat_config (data ?w) (-100))\<lparr>warn_limit := 5\<rparr>)"
    by (simp add: apply_token_def tok_warn_limit)
  from cmd_setconfig_runs [OF _ this, of gw_ok]
  have limit: "warn_limit (get_chat_config (data (snd (cmd_setconfig gw_ok [1]
         (setconfig_cmd [''warn_limit=5'']) ?w))) (-100)) = 5"
    by (simp add: get_after_set)
  have others: "\<forall>t \<in> set (args (setconfig_cmd [''warn_limit=5''])). \<not> starts_with t ''delete_links=''"
    "\<forall>t \<in> set (args (setconfig_cmd [''warn_limit=5''])). \<not> starts_with t ''ban_on_limit=''"
    "\<forall>t \<in> set (args (setconfig_cmd [''warn_limit=5'']))
        . \<not> starts_with t ''add_banned='' \<and> \<not> starts_with t ''remove_banned=''"
    by (simp_all add: adm)
  let ?after = "get_chat_config (data (snd (cmd_setconfig gw_ok [1]
         (setconfig_cmd [''warn_limit=5'']) ?w))) (-100)"
  from t2 others before have same: "delete_links ?after = True" "ban_on_limit ?after = True"
    "set (banned_words ?after) = set GLOBAL_BANNED_WORDS"
    by auto
  have words: "banned_words ?after = GLOBAL_BANNED_WORDS"
    using cmd_setconfig_runs [OF _ \<open>apply_tokens [''warn_limit=5''] _ = _\<close>, of gw_ok] before
    by (simp add: get_after_set set_union_def set_of_list_def GLOBAL_BANNED_WORDS_def)
  from same limit words have "?after = \<lparr>delete_links = True, warn_limit = 5, ban_on_limit = True,
          banned_words = GLOBAL_BANNED_WORDS\<rparr>"
    by (cases ?after) simp
  with unset before added show ?thesis by blast
qed

section \<open>Claim C8\<close>

text \<open>
  C8. If the stored warning counts are not negative (as in the empty default store),
  they are not negative after any sequence of store operations. No store operation
  other than the reset of a pair lowers the count of that pair; the reset sets it to
  0, and an increment adds 1. This holds for \<open>increment_warning\<close> and
  \<open>reset_warnings\<close> of both files.
\<close>

theorem warning_count_monotone:
  "((\<forall>c u. 0 \<le> get_warnings (data w) c u)
      \<longrightarrow> (\<forall>c u. 0 \<le> get_warnings (data (fold apply_op ops w)) c u))
   \<and> (get_warnings (data w) c u \<le> get_warnings (data (apply_op op w)) c u
        \<or> op = ResetWarnings c u \<or> op = ResetWarningsPolling c u)
   \<and> get_warnings (data (apply_op (ResetWarnings c u) w)) c u = 0
   \<and> get_warnings (data (apply_op (ResetWarningsPolling c u) w)) c u = 0
   \<and> get_warnings (data (apply_op (IncrementWarning c u) w)) c u = get_warnings (data w) c u + 1
   \<and> get_warnings (data (apply_op (IncrementWarningPolling c u) w)) c u
       = get_warnings (data w) c u + 1"
proof -
  have inv: "\<forall>c u. 0 \<le> get_warnings (data (fold apply_op ops w)) c u"
    if "\<forall>c u. 0 \<le> get_warnings (data w) c u"
    using that counts_stay_nonneg [of w ops] by blast
  have step: "get_warnings (data w) c u \<le> get_warnings (data (apply_op op w)) c u
        \<or> op = ResetWarnings c u \<or> op = ResetWarningsPolling c u"
    by (simp add: apply_op_count)
  have reset: "get_warnings (data (apply_op (ResetWarnings c u) w)) c u = 0"
    "get_warnings (data (apply_op (ResetWarningsPolling c u) w)) c u = 0"
    by (simp_all add: reset_warnings_effect reset_warnings_polling_effect)
  have incr: "get_warnings (data (apply_op (IncrementWarning c u) w)) c u
      = get_warnings (data w) c u + 1"
    "get_warnings (data (apply_op (IncrementWarningPolling c u) w)) c u
      = get_warnings (data w) c u + 1"
    by (simp_all add: increment_warning_effect increment_warning_polling_effect)
  from inv step reset incr show ?thesis by blast
qed

theorem warning_count_monotone_witness:
  "get_warnings (data (fresh_world Absent)) (-100) 7 = 0
   \<and> get_warnings (data (fold apply_op
        [IncrementWarning (-100) 7, BanUserRecord (-100) 7, IncrementWarningPolling (-100) 7,
         ResetWarnings (-100) 7, IncrementWarning (-100) 7] (fresh_world Absent))) (-100) 7 = 1
   \<and> 0 \<le> get_warnings (data (fold apply_op
        [IncrementWarning (-100) 7, BanUserRecord (-100) 7, IncrementWarningPolling (-100) 7,
         ResetWarnings (-100) 7, IncrementWarning (-100) 7] (fresh_world Absent))) (-100) 7"
proof -
  let ?ops = "[IncrementWarning (-100) 7, BanUserRecord (-100) 7, IncrementWarningPolling (-100) 7,
         ResetWarnings (-100) 7, IncrementWarning (-100) 7]"
  have start: "\<forall>c u. 0 \<le> get_warnings (data (fresh_world Absent)) c u"
    by (simp add: fresh_count)
  from warning_count_monotone [of "fresh_world Absent" ?ops] start
  have "0 \<le> get_warnings (data (fold apply_op ?ops (fresh_world Absent))) (-100) 7" by blast
  moreover have "get_warnings (data (fold apply_op ?ops (fresh_world Absent))) (-100) 7 = 1"
    by (simp add: apply_op_count fresh_count del: apply_op.simps)
  ultimately show ?thesis by (simp add: fresh_count)
qed

section \<open>Claim C9\<close>

text \<open>
  C9. In the webhook variant, when the effective policy of the conversation has
  \<open>delete_links\<close> off, \<open>message_handler\<close> makes no gateway call (no deletion, no
  notice, no ban) and changes neither the warning counts nor the ban ledger, whatever
  the message holds.
\<close>

theorem delete_links_gates_moderation:
  assumes "effective_chat upd = Some ch"
      and "\<not> delete_links (get_chat_config (data w) (chat_id ch))"
  shows "calls (message_handler gw upd w) = calls w
       \<and> warnings (data (message_handler gw upd w)) = warnings (data w)
       \<and> banned (data (message_handler gw upd w)) = banned (data w)"
  using message_handler_gate [OF assms] by simp

theorem delete_links_gates_moderation_witness:
  "text_contains_banned_word (Some ''badword1 http://x.com '')
       (banned_words (get_chat_config (data lenient_world) (-100))) = Some ''badword1''
   \<and> text_contains_link ''badword1 http://x.com ''
   \<and> \<not> delete_links (get_chat_config (data lenient_world) (-100))
   \<and> calls (message_handler gw_ok bad_update lenient_world) = []
   \<and> warnings (data (message_handler gw_ok bad_update lenient_world)) = Map.empty
   \<and> banned (data (message_handler gw_ok bad_update lenient_world)) = Map.empty"
proof -
  have conf: "get_chat_config (data lenient_world) (-100)
      = \<lparr>delete_links = False, warn_limit = 3, ban_on_limit = True,
         banned_words = GLOBAL_BANNED_WORDS\<rparr>"
    by (simp add: get_chat_config_def lenient_world_def DEFAULT_DATA_def fresh_world_def
        warn_limit_default_def ban_on_limit_default_def set_union_def set_of_list_def)
  have word: "text_contains_banned_word (Some ''badword1 http://x.com '') GLOBAL_BANNED_WORDS
      = Some ''badword1''"
    by code_simp
  have link: "text_contains_link ''badword1 http://x.com ''"
    by code_simp
  have ch: "effective_chat bad_update = Some \<lparr>chat_id = -100, chat_type = Group\<rparr>"
    by (simp add: bad_update_def)
  have off: "\<not> delete_links (get_chat_config (data lenient_world)
      (chat_id \<lparr>chat_id = -100, chat_type = Group\<rparr>))"
    by (simp add: conf)
  from delete_links_gates_moderation [OF ch off, of gw_ok]
  have "calls (message_handler gw_ok bad_update lenient_world) = []"
    "warnings (data (message_handler gw_ok bad_update lenient_world)) = Map.empty"
    "banned (data (message_handler gw_ok bad_update lenient_world)) = Map.empty"
    by (simp_all add: lenient_world_def fresh_world_def DEFAULT_DATA_def)
  with conf word link show ?thesis by simp
qed

section \<open>Claim C10\<close>

text \<open>
  C10. In every state the effective set of banned words of every conversation holds
  the global default words, since \<open>get_chat_config\<close> unions them into what it read.
  So after \<open>remove_banned=w\<close> for a global word \<open>w\<close> the next read still holds \<open>w\<close>,
  although the stored list no longer does.
\<close>

theorem global_words_always_effective:
  "set GLOBAL_BANNED_WORDS \<subseteq> set (banned_words (get_chat_config d c))
   \<and> (word \<in> set GLOBAL_BANNED_WORDS \<longrightarrow>
        word \<in> set (banned_words (get_chat_config
          (data (snd (cmd_setconfig gw A (cmd\<lparr>args := [''remove_banned='' @ word]\<rparr>) w))) c)))"
  using global_words_effective by blast

theorem global_words_always_effective_witness:
  "''badword1'' \<in> set GLOBAL_BANNED_WORDS
   \<and> stored_banned_words (the (chats_config
       (data (snd (cmd_setconfig gw_ok [1] (setconfig_cmd [''remove_banned=badword1''])
          (fresh_world Absent)))) (-100)))
     = Some [''badword2'', ''somevulgarword'']
   \<and> ''badword1'' \<in> set (banned_words (get_chat_config
       (data (snd (cmd_setconfig gw_ok [1] (setconfig_cmd [''remove_banned=badword1''])
          (fresh_world Absent)))) (-100)))"
proof -
  have g: "''badword1'' \<in> set GLOBAL_BANNED_WORDS"
    by (simp add: GLOBAL_BANNED_WORDS_def)
  have c: "(setconfig_cmd ts)\<lparr>args := xs\<rparr> = setconfig_cmd xs" for ts xs
    by (simp add: setconfig_cmd_def)
  from global_words_always_effective
    [of "data (fresh_world Absent)" "-100" "''badword1''" gw_ok "[1]" "setconfig_cmd []"
        "fresh_world Absent"] g
  have "''badword1'' \<in> set (banned_words (get_chat_config
       (data (snd (cmd_setconfig gw_ok [1] (setconfig_cmd [''remove_banned=badword1''])
          (fresh_world Absent)))) (-100)))"
    by (simp add: c)
  with g remove_global_word show ?thesis by simp
qed

end
